theory Spec2Isabelle
  imports Complex_Main "HOL-Library.Sublist"
begin

section \<open>JavaScript strings\<close>

text \<open>
  A JavaScript string is read as its sequence of code points, the way the string iterator
  and a \<^verbatim>\<open>u\<close>-flag regular expression read it. \<^verbatim>\<open>.length\<close> counts UTF-16 code units, so a
  code point beyond the Basic Multilingual Plane counts twice. Every literal of the source
  is in the Basic Multilingual Plane, where searching code points and searching code units
  agree.
\<close>

type_synonym ustring = "nat list"

definition ascii :: "string \<Rightarrow> ustring" where
  "ascii s = map of_char s"

definition jsLength :: "ustring \<Rightarrow> nat" where
  "jsLength s = sum_list (map (\<lambda>c. if 0x10000 \<le> c then 2 else 1) s)"

text \<open>\<^verbatim>\<open>x || ""\<close> on a value that is a string or undefined.\<close>

definition orEmpty :: "ustring option \<Rightarrow> ustring" where
  "orEmpty t = (case t of None \<Rightarrow> [] | Some s \<Rightarrow> s)"

text \<open>The truthiness test \<^verbatim>\<open>if (x)\<close> on a value that is a string or undefined.\<close>

definition truthy :: "ustring option \<Rightarrow> bool" where
  "truthy t = (case t of None \<Rightarrow> False | Some s \<Rightarrow> s \<noteq> [])"

fun startsWith :: "ustring \<Rightarrow> ustring \<Rightarrow> bool" where
  "startsWith s [] = True"
| "startsWith [] (p # ps) = False"
| "startsWith (c # cs) (p # ps) = (c = p \<and> startsWith cs ps)"

fun includesStr :: "ustring \<Rightarrow> ustring \<Rightarrow> bool" where
  "includesStr [] k = (k = [])"
| "includesStr (c # cs) k = (startsWith (c # cs) k \<or> includesStr cs k)"

text \<open>The class \<^verbatim>\<open>\s\<close> of a regular expression, which is also what \<^verbatim>\<open>trim\<close> strips.\<close>

definition isSpace :: "nat \<Rightarrow> bool" where
  "isSpace c \<longleftrightarrow>
     c = 9 \<or> c = 10 \<or> c = 11 \<or> c = 12 \<or> c = 13 \<or> c = 32 \<or> c = 0xA0 \<or> c = 0x1680 \<or>
     (0x2000 \<le> c \<and> c \<le> 0x200A) \<or> c = 0x2028 \<or> c = 0x2029 \<or> c = 0x202F \<or>
     c = 0x205F \<or> c = 0x3000 \<or> c = 0xFEFF"

definition trim :: "ustring \<Rightarrow> ustring" where
  "trim s = rev (dropWhile isSpace (rev (dropWhile isSpace s)))"

text \<open>\<^verbatim>\<open>s.split(" ")\<close>: the pieces between single spaces, empty pieces included.\<close>

fun splitSpace :: "ustring \<Rightarrow> ustring list" where
  "splitSpace [] = [] # []"
| "splitSpace (c # cs) =
     (if c = 32 then [] # splitSpace cs
      else (case splitSpace cs of [] \<Rightarrow> [c] # [] | t # ts \<Rightarrow> (c # t) # ts))"

text \<open>\<^verbatim>\<open>ws.join(" ")\<close>.\<close>

fun joinSpace :: "ustring list \<Rightarrow> ustring" where
  "joinSpace [] = []"
| "joinSpace [t] = t"
| "joinSpace (t # u # ts) = t @ 32 # joinSpace (u # ts)"

text \<open>\<^verbatim>\<open>w.slice(i, j)\<close> for \<open>0 \<le> i \<le> j\<close>.\<close>

definition slice :: "nat \<Rightarrow> nat \<Rightarrow> 'a list \<Rightarrow> 'a list" where
  "slice i j w = take (j - i) (drop i w)"

section \<open>The runtime\<close>

text \<open>
  What the code takes from the JavaScript engine and from the dayjs library, and what no
  file of the repository defines, is a parameter of the model:
  \<^item> \<open>toLowerCase\<close>: \<^verbatim>\<open>String.prototype.toLowerCase\<close>;
  \<^item> \<open>isLetterOrNumber\<close>: membership of a code point in \<^verbatim>\<open>\p{L}\<close> or \<^verbatim>\<open>\p{N}\<close>;
  \<^item> \<open>parseDate\<close>: the instant, in milliseconds since the epoch, that \<^verbatim>\<open>dayjs(s)\<close> reads
    from a string, \<open>None\<close> when dayjs calls the date invalid;
  \<^item> \<open>subtractDays t n\<close>: the instant of \<^verbatim>\<open>dayjs(t).subtract(n, "day")\<close>. dayjs moves the
    calendar date of the server's local time, so the result is \<open>n\<close> times 24 hours before
    \<open>t\<close> only when the offset of the local time is the same at both ends;
  \<^item> \<open>diffDays a b\<close>: \<^verbatim>\<open>dayjs(a).diff(dayjs(b), "day")\<close>, the whole days from \<open>b\<close> to \<open>a\<close>,
    which dayjs corrects by the change of the offset of the local time between the two;
  \<^item> \<open>fl\<close>: the rounding of an exact real result to the nearest double, applied after each
    arithmetic operation on numbers;
  \<^item> \<open>log10\<close>: \<^verbatim>\<open>Math.log10\<close>, which the language leaves to the implementation.
  Integers are modelled exactly; in the engine they are exact below \<open>2 ^ 53\<close>.
\<close>

record runtime =
  toLowerCase :: "ustring \<Rightarrow> ustring"
  isLetterOrNumber :: "nat \<Rightarrow> bool"
  parseDate :: "ustring \<Rightarrow> int option"
  subtractDays :: "int \<Rightarrow> int \<Rightarrow> int"
  diffDays :: "int \<Rightarrow> int \<Rightarrow> int"
  fl :: "real \<Rightarrow> real"
  log10 :: "real \<Rightarrow> real"

text \<open>
  The runtime of the examples. Its tables are those of the engine on the inputs that the
  examples use: lower-casing of text whose upper-case letters are ASCII; the letters and
  numbers below U+0250 and in U+1E00 to U+1EFF; the instants of three ISO timestamps; the
  day arithmetic of a server whose local time is UTC, where a day is 24 hours and \<^verbatim>\<open>diff\<close>
  truncates the quotient; arithmetic whose exact results are doubles, so that nothing is
  rounded; the logarithm at powers of ten.
\<close>

definition lowerAscii :: "nat \<Rightarrow> nat" where
  "lowerAscii c = (if 65 \<le> c \<and> c \<le> 90 then c + 32 else c)"

definition latinLetterOrNumber :: "nat \<Rightarrow> bool" where
  "latinLetterOrNumber c \<longleftrightarrow>
     (0x30 \<le> c \<and> c \<le> 0x39) \<or> (0x41 \<le> c \<and> c \<le> 0x5A) \<or> (0x61 \<le> c \<and> c \<le> 0x7A) \<or>
     c = 0xAA \<or> c = 0xB2 \<or> c = 0xB3 \<or> c = 0xB5 \<or> c = 0xB9 \<or> c = 0xBA \<or>
     c = 0xBC \<or> c = 0xBD \<or> c = 0xBE \<or>
     (0xC0 \<le> c \<and> c \<le> 0xD6) \<or> (0xD8 \<le> c \<and> c \<le> 0xF6) \<or> (0xF8 \<le> c \<and> c \<le> 0x24F) \<or>
     (0x1E00 \<le> c \<and> c \<le> 0x1EFF)"

definition demoDates :: "ustring \<Rightarrow> int option" where
  "demoDates s =
     (if s = ascii ''2024-01-03T00:00:00Z'' then Some 1704240000000
      else if s = ascii ''2024-01-03T00:00:01Z'' then Some 1704240001000
      else if s = ascii ''2024-01-09T00:00:00Z'' then Some 1704758400000
      else None)"

definition msPerDay :: int where
  "msPerDay = 86400000"

definition utcSubtractDays :: "int \<Rightarrow> int \<Rightarrow> int" where
  "utcSubtractDays t n = t - n * msPerDay"

definition utcDiffDays :: "int \<Rightarrow> int \<Rightarrow> int" where
  "utcDiffDays a b =
     (if b \<le> a then (a - b) div msPerDay else - ((b - a) div msPerDay))"

definition demoRuntime :: runtime where
  "demoRuntime =
     \<lparr>toLowerCase = map lowerAscii, isLetterOrNumber = latinLetterOrNumber,
      parseDate = demoDates, subtractDays = utcSubtractDays, diffDays = utcDiffDays,
      fl = (\<lambda>x. x), log10 = log 10\<rparr>"

section \<open>Duration normalizer\<close>

definition isDigit :: "nat \<Rightarrow> bool" where
  "isDigit c \<longleftrightarrow> 48 \<le> c \<and> c \<le> 57"

text \<open>\<^verbatim>\<open>parseInt(ds, 10)\<close> on a string of decimal digits.\<close>

definition parseInt :: "ustring \<Rightarrow> nat" where
  "parseInt ds = foldl (\<lambda>a c. 10 * a + (c - 48)) 0 ds"

text \<open>
  The regular expression \<^verbatim>\<open>/PT(?:(\d+)H)?(?:(\d+)M)?(?:(\d+)S)?/\<close> has no anchor: it matches
  at the first \<^verbatim>\<open>PT\<close> of the string, wherever that is, and then always succeeds, since the
  three groups are optional. \<open>afterPT\<close> is the text that follows the first \<^verbatim>\<open>PT\<close>.
\<close>

fun afterPT :: "ustring \<Rightarrow> ustring option" where
  "afterPT (a # b # cs) = (if a = 80 \<and> b = 84 then Some cs else afterPT (b # cs))"
| "afterPT [a] = None"
| "afterPT [] = None"

text \<open>
  One optional group \<^verbatim>\<open>(?:(\d+)U)?\<close> at the head of \<open>s\<close>: the greedy \<^verbatim>\<open>\d+\<close> takes the whole
  run of digits, and the group matches exactly when that run is not empty and the unit
  letter follows it (giving digits back cannot help: a digit would face the letter). The
  result is the captured digits, if any, and the text left.
\<close>

definition segment :: "nat \<Rightarrow> ustring \<Rightarrow> ustring option \<times> ustring" where
  "segment u s =
     (let ds = takeWhile isDigit s; r = dropWhile isDigit s
      in if ds \<noteq> [] \<and> r \<noteq> [] \<and> hd r = u then (Some ds, tl r) else (None, s))"

text \<open>\<^verbatim>\<open>parseInt(m[i] || "0", 10)\<close>.\<close>

definition groupValue :: "ustring option \<Rightarrow> nat" where
  "groupValue g = parseInt (case g of None \<Rightarrow> ascii ''0'' | Some ds \<Rightarrow> ds)"

definition iso8601DurationToSeconds :: "ustring \<Rightarrow> nat" where
  "iso8601DurationToSeconds d =
     (case afterPT d of
        None \<Rightarrow> 0
      | Some r0 \<Rightarrow>
          (let (h, r1) = segment 72 r0;
               (mi, r2) = segment 77 r1;
               (s, r3) = segment 83 r2
           in groupValue h * 3600 + groupValue mi * 60 + groupValue s))"

text \<open>
  The strings of the form \<^verbatim>\<open>PT[nH][nM][nS]\<close>: \<open>isoForm h m s\<close> writes one, each segment
  present or not, and \<open>digits\<close> says that a segment's number is a non-empty string of
  decimal digits. \<open>isIsoForm\<close> decides whether a whole string has the form.
\<close>

definition digits :: "ustring option \<Rightarrow> bool" where
  "digits g = (case g of None \<Rightarrow> True | Some ds \<Rightarrow> ds \<noteq> [] \<and> list_all isDigit ds)"

definition isoSegment :: "ustring option \<Rightarrow> nat \<Rightarrow> ustring" where
  "isoSegment g u = (case g of None \<Rightarrow> [] | Some ds \<Rightarrow> ds @ [u])"

definition isoForm :: "ustring option \<Rightarrow> ustring option \<Rightarrow> ustring option \<Rightarrow> ustring" where
  "isoForm h m s = ascii ''PT'' @ isoSegment h 72 @ isoSegment m 77 @ isoSegment s 83"

definition isIsoForm :: "ustring \<Rightarrow> bool" where
  "isIsoForm d =
     (case d of
        a # b # r0 \<Rightarrow>
          a = 80 \<and> b = 84 \<and> snd (segment 83 (snd (segment 77 (snd (segment 72 r0))))) = []
      | _ \<Rightarrow> False)"

section \<open>Titles: cleaning, hook classification, pattern mining\<close>

text \<open>\<^verbatim>\<open>.replace(/\s+/g, " ")\<close>: every maximal run of white space becomes one space.\<close>

function collapseSpaces :: "ustring \<Rightarrow> ustring" where
  "collapseSpaces [] = []"
| "collapseSpaces (c # cs) =
     (if isSpace c then 32 # collapseSpaces (dropWhile isSpace cs)
      else c # collapseSpaces cs)"
  by pat_completeness auto
termination
  by (relation "measure length") (auto simp: length_dropWhile_le less_Suc_eq_le)

definition cleanTitle :: "runtime \<Rightarrow> ustring option \<Rightarrow> ustring" where
  "cleanTitle R t =
     trim (collapseSpaces
       (map (\<lambda>c. if isLetterOrNumber R c \<or> isSpace c then c else 32)
          (toLowerCase R (orEmpty t))))"

definition khac :: ustring where
  "khac = [0x4B, 0x68, 0xE1, 0x63]"

definition rules :: "(ustring \<times> ustring) list" where
  "rules =
    [([0x70, 0x68, 0x1EBF, 0x20, 0x76, 0x1EAD, 0x74],
      [0x50, 0x68, 0x1EBF, 0x20, 0x76, 0x1EAD, 0x74, 0x20, 0x2192, 0x20, 0x6E, 0x67, 0x68,
       0x1ECB, 0x63, 0x68, 0x20, 0x74, 0x68, 0x69, 0xEA, 0x6E]),
     ([0x72, 0x75, 0x1ED3, 0x6E, 0x67, 0x20, 0x62, 0x1ECF],
      [0x42, 0x1ECB, 0x20, 0x72, 0x75, 0x1ED3, 0x6E, 0x67, 0x20, 0x62, 0x1ECF, 0x20, 0x2192,
       0x20, 0x71, 0x75, 0x61, 0x79, 0x20, 0x6C, 0x1EA1, 0x69]),
     ([0x71, 0x75, 0x1EF3, 0x20, 0x78, 0x75, 0x1ED1, 0x6E, 0x67],
      [0xC1, 0x70, 0x20, 0x63, 0x68, 0x1EBF, 0x20, 0x2192, 0x20, 0x71, 0x75, 0x1EF3, 0x20,
       0x78, 0x75, 0x1ED1, 0x6E, 0x67]),
     ([0x63, 0x68, 0x1EA5, 0x6E, 0x20, 0x111, 0x1ED9, 0x6E, 0x67],
      [0x110, 0x1ED9, 0x74, 0x20, 0x70, 0x68, 0xE1, 0x20, 0x2192, 0x20, 0x63, 0x68, 0x1EA5,
       0x6E, 0x20, 0x111, 0x1ED9, 0x6E, 0x67]),
     ([0x78, 0x75, 0x79, 0xEA, 0x6E, 0x20, 0x6B, 0x68, 0xF4, 0x6E, 0x67],
      [0x58, 0x75, 0x79, 0xEA, 0x6E, 0x20, 0x6B, 0x68, 0xF4, 0x6E, 0x67]),
     ([0x68, 0x1EC7, 0x20, 0x74, 0x68, 0x1ED1, 0x6E, 0x67],
      [0x48, 0x1EC7, 0x20, 0x74, 0x68, 0x1ED1, 0x6E, 0x67]),
     ([0x74, 0x72, 0xF9, 0x6E, 0x67, 0x20, 0x73, 0x69, 0x6E, 0x68],
      [0x54, 0x72, 0xF9, 0x6E, 0x67, 0x20, 0x73, 0x69, 0x6E, 0x68])]"

text \<open>\<^verbatim>\<open>for (const r of rules) if (t.includes(r.k)) return r.tag; return "Khac"\<close>.\<close>

fun firstMatch :: "ustring \<Rightarrow> (ustring \<times> ustring) list \<Rightarrow> ustring" where
  "firstMatch t [] = khac"
| "firstMatch t ((k, tag) # rs) = (if includesStr t k then tag else firstMatch t rs)"

definition classifyHook :: "runtime \<Rightarrow> ustring option \<Rightarrow> ustring" where
  "classifyHook R title = firstMatch (cleanTitle R title) rules"

definition stop :: "ustring list" where
  "stop =
    [ascii ''review'', [0x74, 0xF3, 0x6D], [0x74, 0x1EAF, 0x74], ascii ''phim'',
     ascii ''full'', [0x74, 0x1EAD, 0x70], ascii ''ep'', [0x70, 0x68, 0x1EA7, 0x6E],
     ascii ''p1'', ascii ''p2'', ascii ''p3'', ascii ''p4'', ascii ''p5'',
     [0x6D, 0x1EDB, 0x69], ascii ''hay'', [0x6E, 0x68, 0x1EA5, 0x74], [0x76, 0xE0],
     [0x6C, 0xE0], [0x63, 0x1EE7, 0x61], ascii ''cho'', [0x6D, 0x1ED9, 0x74],
     [0x6E, 0x68, 0x1EEF, 0x6E, 0x67], [0x111, 0xE3], ascii ''khi'', [0x74, 0x68, 0xEC],
     [0x76, 0x1EDB, 0x69], ascii ''trong'', [0x74, 0x1EEB], [0x111, 0x1EBF, 0x6E]]"

definition isStop :: "ustring \<Rightarrow> bool" where
  "isStop x \<longleftrightarrow> x \<in> set stop"

text \<open>
  The filtered token sequence \<open>w\<close> of one title:
  \<^verbatim>\<open>cleanTitle(raw).split(" ").filter(Boolean).filter(x => x.length >= 2 && !stop.has(x))\<close>.
\<close>

definition words :: "runtime \<Rightarrow> ustring option \<Rightarrow> ustring list" where
  "words R raw = filter (\<lambda>x. x \<noteq> []) (splitSpace (cleanTitle R raw))"

definition tokens :: "runtime \<Rightarrow> ustring option \<Rightarrow> ustring list" where
  "tokens R raw = filter (\<lambda>x. 2 \<le> jsLength x \<and> \<not> isStop x) (words R raw)"

text \<open>
  The n-grams of \<open>w\<close> that reach \<^verbatim>\<open>freq.set\<close>, in the order of the two nested loops: for
  each \<open>n\<close> from \<open>nMin\<close> to \<open>nMax\<close>, for each \<open>i\<close> with \<open>i + n \<le> length w\<close>, the joined slice,
  unless one of the pieces of the joined string is a stopword.
\<close>

definition gramAt :: "ustring list \<Rightarrow> nat \<Rightarrow> nat \<Rightarrow> ustring" where
  "gramAt w n i = joinSpace (slice i (i + n) w)"

definition rejected :: "ustring \<Rightarrow> bool" where
  "rejected gram = list_ex isStop (splitSpace gram)"

definition gramsOfLength :: "ustring list \<Rightarrow> nat \<Rightarrow> ustring list" where
  "gramsOfLength w n = filter (\<lambda>g. \<not> rejected g) (map (gramAt w n) [0 ..< length w + 1 - n])"

definition gramsOf :: "nat \<Rightarrow> nat \<Rightarrow> ustring list \<Rightarrow> ustring list" where
  "gramsOf nMin nMax w = concat (map (gramsOfLength w) [nMin ..< nMax + 1])"

text \<open>
  \<^verbatim>\<open>m.set(k, (m.get(k) || 0) + 1)\<close> on a Map, which keeps its keys in the order of their first
  insertion.
\<close>

fun bump :: "ustring \<Rightarrow> (ustring \<times> nat) list \<Rightarrow> (ustring \<times> nat) list" where
  "bump g [] = [(g, 1)]"
| "bump g ((k, c) # kvs) = (if k = g then (k, c + 1) # kvs else (k, c) # bump g kvs)"

definition countTitle ::
  "runtime \<Rightarrow> nat \<Rightarrow> nat \<Rightarrow> (ustring \<times> nat) list \<Rightarrow> ustring option \<Rightarrow> (ustring \<times> nat) list" where
  "countTitle R nMin nMax freq raw = foldl (\<lambda>f g. bump g f) freq (gramsOf nMin nMax (tokens R raw))"

text \<open>
  \<^verbatim>\<open>entries.sort((a, b) => b[1] - a[1])\<close>: the sort of the language is stable, so this is the
  stable sort by descending count.
\<close>

definition byCountDesc :: "(ustring \<times> nat) list \<Rightarrow> (ustring \<times> nat) list" where
  "byCountDesc es = sort_key (\<lambda>e. - int (snd e)) es"

record PatternEntry =
  phrase :: ustring
  count :: nat

text \<open>The number of places at which the sequence \<open>g\<close> stands in the sequence \<open>w\<close>.\<close>

definition occurrences :: "'a list \<Rightarrow> 'a list \<Rightarrow> nat" where
  "occurrences g w =
     length (filter (\<lambda>i. take (length g) (drop i w) = g) [0 ..< length w + 1 - length g])"

definition extractNgrams ::
  "runtime \<Rightarrow> ustring option list \<Rightarrow> nat \<Rightarrow> nat \<Rightarrow> PatternEntry list" where
  "extractNgrams R titles nMin nMax =
     map (\<lambda>(p, c). \<lparr>phrase = p, count = c\<rparr>)
       (take 50 (byCountDesc (foldl (countTitle R nMin nMax) [] titles)))"

section \<open>Metric calculator\<close>

text \<open>
  \<^verbatim>\<open>Math.round\<close> is exact on a double and sends a tie upwards, as \<open>round\<close> does. The division,
  the sum and the product are each rounded to a double.
\<close>

definition computeVelocity :: "runtime \<Rightarrow> real \<Rightarrow> real \<Rightarrow> real \<Rightarrow> int" where
  "computeVelocity R views likes ageDays =
     (let vpd = fl R (views / max 1 ageDays)
      in round (fl R (vpd * log10 R (fl R (likes + 10)))))"

section \<open>Channel references\<close>

datatype kind = Id | ForHandle

record parsed =
  kind_of :: kind
  value_of :: ustring

definition isIdChar :: "nat \<Rightarrow> bool" where
  "isIdChar c \<longleftrightarrow>
     (97 \<le> c \<and> c \<le> 122) \<or> (65 \<le> c \<and> c \<le> 90) \<or> (48 \<le> c \<and> c \<le> 57) \<or> c = 95 \<or> c = 45"

text \<open>
  \<^verbatim>\<open>s.match(/(UC[a-zA-Z0-9_-]{20,})/)\<close>: the leftmost \<^verbatim>\<open>UC\<close> that at least twenty characters of
  the class follow, with the whole run of them (the quantifier is greedy).
\<close>

fun matchChannelId :: "ustring \<Rightarrow> ustring option" where
  "matchChannelId (a # b # cs) =
     (if a = 85 \<and> b = 67 \<and> 20 \<le> length (takeWhile isIdChar cs)
      then Some (a # b # takeWhile isIdChar cs)
      else matchChannelId (b # cs))"
| "matchChannelId [a] = None"
| "matchChannelId [] = None"

text \<open>
  \<^verbatim>\<open>s.match(/youtube\.com\/@([^/?]+)/i)\<close>: the leftmost place where the thirteen characters
  \<^verbatim>\<open>youtube.com/@\<close> stand, in either case of the ASCII letters, before at least one character
  other than \<^verbatim>\<open>/\<close> and \<^verbatim>\<open>?\<close>; the group is the whole run of such characters.
\<close>

fun matchHandleUrl :: "ustring \<Rightarrow> ustring option" where
  "matchHandleUrl [] = None"
| "matchHandleUrl (c # cs) =
     (let h = takeWhile (\<lambda>x. x \<noteq> 47 \<and> x \<noteq> 63) (drop 13 (c # cs))
      in if map lowerAscii (take 13 (c # cs)) = ascii ''youtube.com/@'' \<and> h \<noteq> []
         then Some h
         else matchHandleUrl cs)"

definition parseChannelInput :: "ustring \<Rightarrow> parsed" where
  "parseChannelInput input =
     (let s = trim input
      in case matchChannelId s of
           Some m1 \<Rightarrow> \<lparr>kind_of = Id, value_of = m1\<rparr>
         | None \<Rightarrow>
             (case matchHandleUrl s of
                Some m2 \<Rightarrow> \<lparr>kind_of = ForHandle, value_of = 64 # m2\<rparr>
              | None \<Rightarrow>
                  if startsWith s [64] then \<lparr>kind_of = ForHandle, value_of = s\<rparr>
                  else \<lparr>kind_of = ForHandle, value_of = s\<rparr>))"

section \<open>The upstream provider\<close>

text \<open>
  The provider answers the three requests that the code sends through \<^verbatim>\<open>ytGET\<close>. An answer
  is the parsed JSON body, or \<open>Inl msg\<close> when \<^verbatim>\<open>ytGET\<close> throws an error with that message.
  A field that the code reads with \<^verbatim>\<open>?.\<close> is an option; \<^verbatim>\<open>res.items || []\<close> is a list, empty
  when the field is missing; a counter is the number that \<^verbatim>\<open>Number\<close> reads from its text.
\<close>

record channelItem =
  ci_id :: ustring
  ci_title :: "ustring option"
  ci_uploads :: "ustring option"
  ci_subscriberCount :: "nat option"
  ci_viewCount :: "nat option"
  ci_videoCount :: "nat option"

record playlistPage =
  items :: "ustring option list"
  nextPageToken :: "ustring option"

record videoItem =
  v_id :: ustring
  v_title :: "ustring option"
  v_publishedAt :: "ustring option"
  v_viewCount :: "nat option"
  v_likeCount :: "nat option"
  v_commentCount :: "nat option"
  v_duration :: "ustring option"

record provider =
  channelsGET :: "parsed \<Rightarrow> ustring + channelItem list"
  playlistItemsGET :: "ustring \<Rightarrow> nat \<Rightarrow> ustring option \<Rightarrow> ustring + playlistPage"
  videosGET :: "ustring list \<Rightarrow> ustring + videoItem list"

record ChannelRecord =
  ch_channelId :: ustring
  ch_title :: "ustring option"
  uploadsPlaylistId :: "ustring option"
  subscribers :: nat
  totalViews :: nat
  videoCount :: nat

text \<open>\<^verbatim>\<open>Number(x || 0)\<close> on a counter.\<close>

definition orZero :: "nat option \<Rightarrow> nat" where
  "orZero x = (case x of None \<Rightarrow> 0 | Some n \<Rightarrow> n)"

definition notFound :: ustring where
  "notFound =
     [0x4B, 0x68, 0xF4, 0x6E, 0x67, 0x20, 0x74, 0xEC, 0x6D, 0x20, 0x74, 0x68, 0x1EA5, 0x79,
      0x20] @ ascii ''channel: ''"

text \<open>One request to the provider; an empty answer throws the error that names the reference.\<close>

definition resolveChannel :: "provider \<Rightarrow> parsed \<Rightarrow> ustring + ChannelRecord" where
  "resolveChannel P p =
     (case channelsGET P p of
        Inl e \<Rightarrow> Inl e
      | Inr [] \<Rightarrow> Inl (notFound @ value_of p)
      | Inr (ch # _) \<Rightarrow>
          Inr \<lparr>ch_channelId = ci_id ch, ch_title = ci_title ch,
               uploadsPlaylistId = ci_uploads ch,
               subscribers = orZero (ci_subscriberCount ch),
               totalViews = orZero (ci_viewCount ch),
               videoCount = orZero (ci_videoCount ch)\<rparr>)"

text \<open>
  The page loop of \<^verbatim>\<open>listPlaylistVideos\<close>. It ends when enough identifiers are gathered, when a
  page has no next token or no item, or when a request fails; a provider that keeps sending
  pages of items without a video identifier keeps it running, so the result is an option.
  \<open>get\<close> is the provider's answer to a request for one page; the last component counts
  the requests sent.
\<close>

partial_function (option) listLoop ::
  "(ustring \<Rightarrow> nat \<Rightarrow> ustring option \<Rightarrow> ustring + playlistPage) \<Rightarrow> ustring \<Rightarrow> nat
     \<Rightarrow> ustring option \<Rightarrow> ustring list \<Rightarrow> nat \<Rightarrow> ((ustring + ustring list) \<times> nat) option" where
  "listLoop get playlistId maxVideos pageToken ids n =
     (if length ids < maxVideos then
        (case get playlistId (min 50 (maxVideos - length ids)) pageToken of
           Inl e \<Rightarrow> Some (Inl e, n + 1)
         | Inr res \<Rightarrow>
             (if \<not> truthy (nextPageToken res) \<or> items res = []
              then Some (Inr (ids @ map orEmpty (filter truthy (items res))), n + 1)
              else listLoop get playlistId maxVideos (nextPageToken res)
                     (ids @ map orEmpty (filter truthy (items res))) (n + 1)))
      else Some (Inr ids, n))"

definition listPlaylistVideos ::
  "provider \<Rightarrow> ustring \<Rightarrow> nat \<Rightarrow> ((ustring + ustring list) \<times> nat) option" where
  "listPlaylistVideos P playlistId maxVideos =
     listLoop (playlistItemsGET P) playlistId maxVideos None [] 0"

text \<open>\<^verbatim>\<open>getVideosDetails\<close>: one request for each chunk of at most fifty identifiers.\<close>

function chunks :: "ustring list \<Rightarrow> ustring list list" where
  "chunks videoIds = (if videoIds = [] then [] else take 50 videoIds # chunks (drop 50 videoIds))"
  by pat_completeness auto
termination
  by (relation "measure length") auto

fun fetchChunks ::
  "provider \<Rightarrow> ustring list list \<Rightarrow> videoItem list \<Rightarrow> nat \<Rightarrow> (ustring + videoItem list) \<times> nat" where
  "fetchChunks P [] out n = (Inr out, n)"
| "fetchChunks P (chunk # rest) out n =
     (case videosGET P chunk of
        Inl e \<Rightarrow> (Inl e, n + 1)
      | Inr res \<Rightarrow> fetchChunks P rest (out @ res) (n + 1))"

definition getVideosDetails ::
  "provider \<Rightarrow> ustring list \<Rightarrow> (ustring + videoItem list) \<times> nat" where
  "getVideosDetails P videoIds = fetchChunks P (chunks videoIds) [] 0"

section \<open>Video records and the bundle of one channel\<close>

record Row =
  channelId :: ustring
  channelTitle :: "ustring option"
  videoId :: ustring
  title :: "ustring option"
  publishedAt :: ustring
  durationSec :: nat
  views :: nat
  likes :: nat
  comments :: nat
  ageDays :: int
  viewsPerDay :: int
  velocity :: int
  hookTag :: ustring
  url :: ustring

text \<open>
  \<^verbatim>\<open>dayjs().subtract(days, "day")\<close>, where \<^verbatim>\<open>dayjs()\<close> reads the clock at the instant \<open>now\<close>.
\<close>

definition cutoffOf :: "runtime \<Rightarrow> int \<Rightarrow> int \<Rightarrow> int" where
  "cutoffOf R now days = subtractDays R now days"

definition watchUrl :: ustring where
  "watchUrl = ascii ''https://www.youtube.com/watch?v=''"

text \<open>
  The record that the \<^verbatim>\<open>map\<close> of POST builds from a provider item whose \<^verbatim>\<open>publishedAt\<close> is
  the string \<open>pa\<close>, read by dayjs as the instant \<open>p\<close>. The \<^verbatim>\<open>map\<close> calls \<^verbatim>\<open>dayjs()\<close> anew for
  each item: \<open>t\<close> is the instant at which it does so for this one.
\<close>

definition makeRow :: "runtime \<Rightarrow> int \<Rightarrow> ChannelRecord \<Rightarrow> videoItem \<Rightarrow> ustring \<Rightarrow> int \<Rightarrow> Row" where
  "makeRow R t ch v pa p =
     (let views = orZero (v_viewCount v);
          likes = orZero (v_likeCount v);
          comments = orZero (v_commentCount v);
          durSec = iso8601DurationToSeconds
                     (if truthy (v_duration v) then orEmpty (v_duration v) else ascii ''PT0S'');
          ageDays = max 1 (diffDays R t p);
          viewsPerDay = round (fl R (real views / real_of_int ageDays));
          velocity = computeVelocity R (real views) (real likes) (real_of_int ageDays)
      in \<lparr>channelId = ch_channelId ch, channelTitle = ch_title ch, videoId = v_id v,
           title = v_title v, publishedAt = pa, durationSec = durSec, views = views,
           likes = likes, comments = comments, ageDays = ageDays,
           viewsPerDay = viewsPerDay, velocity = velocity,
           hookTag = classifyHook R (Some (orEmpty (v_title v))),
           url = watchUrl @ v_id v\<rparr>)"

text \<open>
  The window filter \<^verbatim>\<open>r.publishedAt && dayjs(r.publishedAt).isAfter(cutoff)\<close>. It reads only
  the field that the record copies from the item, so it is decided on the item: the result
  is the string and its instant when the record is kept. A missing or empty \<^verbatim>\<open>publishedAt\<close>
  fails the first conjunct; an invalid date is after nothing.
\<close>

definition inWindow :: "runtime \<Rightarrow> int \<Rightarrow> videoItem \<Rightarrow> (ustring \<times> int) option" where
  "inWindow R cutoff v =
     (case v_publishedAt v of
        None \<Rightarrow> None
      | Some pa \<Rightarrow>
          if pa = [] then None
          else (case parseDate R pa of
                  None \<Rightarrow> None
                | Some p \<Rightarrow> if cutoff < p then Some (pa, p) else None))"

text \<open>
  \<^verbatim>\<open>videos.map(...).filter(...)\<close>: the records of the items that pass the filter, in the
  order of the items. (A record that the filter drops is built and thrown away.) \<open>clock v\<close>
  is the instant at which the \<^verbatim>\<open>map\<close> reads the clock for the item \<open>v\<close>.
\<close>

definition buildRows ::
  "runtime \<Rightarrow> (videoItem \<Rightarrow> int) \<Rightarrow> int \<Rightarrow> ChannelRecord \<Rightarrow> videoItem list \<Rightarrow> Row list" where
  "buildRows R clock cutoff ch videos =
     List.map_filter
       (\<lambda>v. map_option (\<lambda>(pa, p). makeRow R (clock v) ch v pa p) (inWindow R cutoff v)) videos"

definition topBy :: "(Row \<Rightarrow> int) \<Rightarrow> Row list \<Rightarrow> Row list" where
  "topBy f rows = take 20 (sort_key (\<lambda>r. - f r) rows)"

record Bundle =
  b_ch :: ChannelRecord
  b_rows :: "Row list"
  b_patterns :: "PatternEntry list"
  b_topByVelocity :: "Row list"
  b_topByVpd :: "Row list"

definition makeBundle ::
  "runtime \<Rightarrow> (videoItem \<Rightarrow> int) \<Rightarrow> int \<Rightarrow> ChannelRecord \<Rightarrow> videoItem list \<Rightarrow> Bundle" where
  "makeBundle R clock cutoff ch videos =
     (let rows = buildRows R clock cutoff ch videos
      in \<lparr>b_ch = ch, b_rows = rows,
           b_patterns = extractNgrams R (map title rows) 2 4,
           b_topByVelocity = topBy velocity rows,
           b_topByVpd = topBy viewsPerDay rows\<rparr>)"

definition noUploads :: "ChannelRecord \<Rightarrow> ustring" where
  "noUploads ch =
     ascii ''Channel '' @ (case ch_title ch of None \<Rightarrow> ascii ''undefined'' | Some t \<Rightarrow> t) @
     [0x20, 0x6B, 0x68, 0xF4, 0x6E, 0x67, 0x20, 0x63, 0xF3, 0x20] @ ascii ''uploads playlist''"

text \<open>
  The body of \<^verbatim>\<open>if (!cached)\<close>: resolve, list, fetch, build. The result is the thrown message or
  the bundle, with the number of requests sent to the provider.
\<close>

definition fetchBundle ::
  "runtime \<Rightarrow> provider \<Rightarrow> (videoItem \<Rightarrow> int) \<Rightarrow> int \<Rightarrow> parsed \<Rightarrow> int
     \<Rightarrow> ((ustring + Bundle) \<times> nat) option" where
  "fetchBundle R P clock cutoff p maxVideos =
     (case resolveChannel P p of
        Inl e \<Rightarrow> Some (Inl e, 1)
      | Inr ch \<Rightarrow>
          if \<not> truthy (uploadsPlaylistId ch) then Some (Inl (noUploads ch), 1)
          else
            (case listPlaylistVideos P (orEmpty (uploadsPlaylistId ch)) (nat maxVideos) of
               None \<Rightarrow> None
             | Some (Inl e, n) \<Rightarrow> Some (Inl e, 1 + n)
             | Some (Inr ids, n) \<Rightarrow>
                 (case getVideosDetails P ids of
                    (Inl e, m) \<Rightarrow> Some (Inl e, 1 + n + m)
                  | (Inr videos, m) \<Rightarrow>
                      Some (Inr (makeBundle R clock cutoff ch videos), 1 + n + m))))"

section \<open>The cache\<close>

text \<open>
  Modelled from the spec: the cache is an object of the lru-cache library, which is not
  part of the repository; the source only constructs it with \<^verbatim>\<open>max: 500\<close> and a time to live
  of six hours, and calls \<^verbatim>\<open>get\<close> and \<^verbatim>\<open>set\<close>. An entry is the key, the bundle and the instant
  of its \<^verbatim>\<open>set\<close>; the list runs from the most to the least recently used. \<^verbatim>\<open>get\<close> of an entry
  older than the time to live removes it and finds nothing; \<^verbatim>\<open>get\<close> of a live entry makes it
  the most recent; \<^verbatim>\<open>set\<close> puts the entry first and, beyond 500 entries, drops the least
  recently used. The key is the text \<^verbatim>\<open>JSON.stringify({parsed, days, maxVideos})\<close>, which
  determines and is determined by the triple.
\<close>

type_synonym key = "parsed \<times> int \<times> int"

type_synonym cache = "(key \<times> Bundle \<times> int) list"

definition ttl :: int where
  "ttl = 1000 * 60 * 60 * 6"

definition maxEntries :: nat where
  "maxEntries = 500"

definition cacheGet :: "key \<Rightarrow> int \<Rightarrow> cache \<Rightarrow> Bundle option \<times> cache" where
  "cacheGet k t c =
     (case find (\<lambda>e. fst e = k) c of
        None \<Rightarrow> (None, c)
      | Some (k', b, start) \<Rightarrow>
          if ttl < t - start then (None, filter (\<lambda>e. fst e \<noteq> k) c)
          else (Some b, (k', b, start) # filter (\<lambda>e. fst e \<noteq> k) c))"

definition cacheSet :: "key \<Rightarrow> Bundle \<Rightarrow> int \<Rightarrow> cache \<Rightarrow> cache" where
  "cacheSet k b t c = take maxEntries ((k, b, t) # filter (\<lambda>e. fst e \<noteq> k) c)"

section \<open>The request handler\<close>

text \<open>
  A request takes time: the handler awaits the provider between its readings of the clock.
  It reads the clock once before the loop, for the cutoff; in each turn of the loop the
  cache reads its clock at \<^verbatim>\<open>cache.get\<close>, the \<^verbatim>\<open>map\<close> reads the clock for each item after
  the awaited requests, and the cache reads its clock again at \<^verbatim>\<open>cache.set\<close>, which starts
  the life of the entry. The instants of one turn follow; that of the \<^verbatim>\<open>map\<close> is given for
  the item, so that it does not depend on the other items of the list.
\<close>

record turn =
  getAt :: int
  rowAt :: "videoItem \<Rightarrow> int"
  setAt :: int

text \<open>
  One turn of the loop over the inputs, up to the two \<^verbatim>\<open>push\<close>es: the bundle for the input
  (or the thrown message), the cache afterwards and the number of provider requests.
  \<open>cutoff\<close> is the cutoff of the request, computed before the loop.
\<close>

definition handleInput ::
  "runtime \<Rightarrow> provider \<Rightarrow> turn \<Rightarrow> int \<Rightarrow> int \<Rightarrow> int \<Rightarrow> ustring \<Rightarrow> cache
     \<Rightarrow> ((ustring + Bundle) \<times> cache \<times> nat) option" where
  "handleInput R P T cutoff days maxVideos input c =
     (let p = parseChannelInput input;
          cacheKey = (p, days, maxVideos);
          (cached, c1) = cacheGet cacheKey (getAt T) c
      in case cached of
           Some b \<Rightarrow> Some (Inr b, c1, 0)
         | None \<Rightarrow>
             (case fetchBundle R P (rowAt T) cutoff p maxVideos of
                None \<Rightarrow> None
              | Some (Inl e, n) \<Rightarrow> Some (Inl e, c1, n)
              | Some (Inr b, n) \<Rightarrow> Some (Inr b, cacheSet cacheKey b (setAt T) c1, n)))"

text \<open>The loop; \<open>turns i\<close> holds the instants of the turn for the \<open>i\<close>-th of the inputs left.\<close>

fun forInputs ::
  "runtime \<Rightarrow> provider \<Rightarrow> (nat \<Rightarrow> turn) \<Rightarrow> int \<Rightarrow> int \<Rightarrow> int \<Rightarrow> ustring list
     \<Rightarrow> ChannelRecord list \<Rightarrow> Row list \<Rightarrow> cache \<Rightarrow> nat
     \<Rightarrow> ((ustring + ChannelRecord list \<times> Row list) \<times> cache \<times> nat) option" where
  "forInputs R P turns cutoff days maxVideos [] channels allRows c calls =
     Some (Inr (channels, allRows), c, calls)"
| "forInputs R P turns cutoff days maxVideos (input # rest) channels allRows c calls =
     (case handleInput R P (turns 0) cutoff days maxVideos input c of
        None \<Rightarrow> None
      | Some (Inl e, c', n) \<Rightarrow> Some (Inl e, c', calls + n)
      | Some (Inr cached, c', n) \<Rightarrow>
          forInputs R P (\<lambda>i. turns (Suc i)) cutoff days maxVideos rest
            (channels @ [b_ch cached]) (allRows @ b_rows cached) c' (calls + n))"

subsection \<open>Channel aggregation\<close>

record HookMix =
  tag :: ustring
  hcount :: nat

record ChannelSummary =
  s_channelId :: ustring
  s_channelTitle :: ustring
  videosInWindow :: nat
  avgDurationSec :: int
  avgViewsPerDay :: int
  avgVelocity :: int
  hookMix :: "HookMix list"

text \<open>The Map \<^verbatim>\<open>byChannel\<close>: the records of each channel identifier, in the order of arrival.\<close>

fun groupPush :: "Row \<Rightarrow> (ustring \<times> Row list) list \<Rightarrow> (ustring \<times> Row list) list" where
  "groupPush r [] = [(channelId r, [r])]"
| "groupPush r ((k, rs) # g) =
     (if k = channelId r then (k, rs @ [r]) # g else (k, rs) # groupPush r g)"

definition byChannel :: "Row list \<Rightarrow> (ustring \<times> Row list) list" where
  "byChannel allRows = foldl (\<lambda>g r. groupPush r g) [] allRows"

text \<open>\<^verbatim>\<open>Math.round(rows.reduce((s, r) => s + f(r), 0) / Math.max(1, rows.length))\<close>.\<close>

definition average :: "runtime \<Rightarrow> (Row \<Rightarrow> int) \<Rightarrow> Row list \<Rightarrow> int" where
  "average R f rows =
     round (fl R (real_of_int (foldl (\<lambda>s r. s + f r) 0 rows) / real (max 1 (length rows))))"

definition hookMixOf :: "Row list \<Rightarrow> HookMix list" where
  "hookMixOf rows =
     map (\<lambda>(t, c). \<lparr>tag = t, hcount = c\<rparr>)
       (take 8 (byCountDesc (foldl (\<lambda>hooks r. bump (hookTag r) hooks) [] rows)))"

definition summaryOf :: "runtime \<Rightarrow> ustring \<times> Row list \<Rightarrow> ChannelSummary" where
  "summaryOf R g =
     (case g of (cid, rows) \<Rightarrow>
        \<lparr>s_channelId = cid,
         s_channelTitle =
           (case rows of
              [] \<Rightarrow> cid
            | r # _ \<Rightarrow> if truthy (channelTitle r) then orEmpty (channelTitle r) else cid),
         videosInWindow = length rows,
         avgDurationSec = average R (\<lambda>r. int (durationSec r)) rows,
         avgViewsPerDay = average R viewsPerDay rows,
         avgVelocity = average R velocity rows,
         hookMix = hookMixOf rows\<rparr>)"

definition channelSummaryOf :: "runtime \<Rightarrow> Row list \<Rightarrow> ChannelSummary list" where
  "channelSummaryOf R allRows =
     sort_key (\<lambda>s. - avgVelocity s) (map (summaryOf R) (byChannel allRows))"

subsection \<open>Request and response\<close>

record body =
  inputs :: "ustring list"
  days :: "int option"
  maxVideos :: "int option"

text \<open>
  \<^verbatim>\<open>BodySchema.parse\<close> on a body whose fields have the JSON types of the schema: one to ten
  non-empty strings, \<open>days\<close> from 7 to 365 (60 when absent), \<open>maxVideos\<close> from 10 to 200
  (80 when absent). \<open>None\<close> is the validation error.
\<close>

definition BodySchema :: "body \<Rightarrow> (ustring list \<times> int \<times> int) option" where
  "BodySchema b =
     (let d = (case days b of None \<Rightarrow> 60 | Some x \<Rightarrow> x);
          m = (case maxVideos b of None \<Rightarrow> 80 | Some x \<Rightarrow> x)
      in if list_all (\<lambda>s. 1 \<le> jsLength s) (inputs b) \<and> 1 \<le> length (inputs b) \<and>
            length (inputs b) \<le> 10 \<and> 7 \<le> d \<and> d \<le> 365 \<and> 10 \<le> m \<and> m \<le> 200
         then Some (inputs b, d, m) else None)"

record payload =
  r_days :: int
  r_maxVideos :: int
  channels :: "ChannelRecord list"
  channelSummary :: "ChannelSummary list"
  globalTopByVelocity :: "Row list"
  globalTopByViewsPerDay :: "Row list"
  globalPatterns :: "PatternEntry list"
  rows :: "Row list"

text \<open>
  The text of an error response: a message of the code or of the provider, or the issue
  list that the validation library writes.
\<close>

datatype message = Text ustring | SchemaIssues

datatype response = Success payload | Failure nat message

definition missingKey :: ustring where
  "missingKey =
     [0x54, 0x68, 0x69, 0x1EBF, 0x75, 0x20] @ ascii ''YT_API_KEY trong .env.local''"

definition respond :: "runtime \<Rightarrow> int \<Rightarrow> int \<Rightarrow> ChannelRecord list \<Rightarrow> Row list \<Rightarrow> payload" where
  "respond R d m chs allRows =
     \<lparr>r_days = d, r_maxVideos = m, channels = chs,
      channelSummary = channelSummaryOf R allRows,
      globalTopByVelocity = topBy velocity allRows,
      globalTopByViewsPerDay = topBy viewsPerDay allRows,
      globalPatterns = extractNgrams R (map title allRows) 2 4,
      rows = allRows\<rparr>"

text \<open>
  The handler: the response, the cache it leaves and the number of provider requests it
  sent; \<open>None\<close> when the page loop of some channel does not end. \<open>now\<close> is the instant at
  which it reads the clock for the cutoff, once, before the loop; \<open>turns\<close> holds the instants
  of the turns of the loop. \<^verbatim>\<open>catch\<close> turns every thrown error into a response with status
  400 and the message (\<^verbatim>\<open>"Error"\<close> for an empty one).
\<close>

definition POST ::
  "runtime \<Rightarrow> provider \<Rightarrow> ustring option \<Rightarrow> int \<Rightarrow> (nat \<Rightarrow> turn) \<Rightarrow> cache \<Rightarrow> body
     \<Rightarrow> (response \<times> cache \<times> nat) option" where
  "POST R P apiKey now turns c req =
     (if \<not> truthy apiKey then Some (Failure 500 (Text missingKey), c, 0)
      else
        (case BodySchema req of
           None \<Rightarrow> Some (Failure 400 SchemaIssues, c, 0)
         | Some (ins, d, m) \<Rightarrow>
             (case forInputs R P turns (cutoffOf R now d) d m ins [] [] c 0 of
                None \<Rightarrow> None
              | Some (Inl e, c', n) \<Rightarrow>
                  Some (Failure 400 (Text (if e = [] then ascii ''Error'' else e)), c', n)
              | Some (Inr (chs, allRows), c', n) \<Rightarrow>
                  Some (Success (respond R d m chs allRows), c', n))))"

section \<open>The single-channel handler\<close>

text \<open>
  The older handler, \<^verbatim>\<open>api/analyze/route.js\<close>, has no cache and builds its rows from the
  items of one channel. Its filter is \<^verbatim>\<open>dayjs(r.publishedAt).isAfter(cutoff)\<close>, without the
  test that \<^verbatim>\<open>publishedAt\<close> is there: for an item without \<^verbatim>\<open>publishedAt\<close>, \<^verbatim>\<open>dayjs(undefined)\<close>
  is the present instant, so the item is kept when the cutoff lies before the instant at
  which the filter reads the clock, and its age is \<^verbatim>\<open>Math.max(1, ...)\<close> of the days between
  two readings of the clock in one expression, that is, 1.
\<close>

record RouteRow =
  rr_videoId :: ustring
  rr_title :: "ustring option"
  rr_publishedAt :: "ustring option"
  rr_durationSec :: nat
  rr_views :: nat
  rr_likes :: nat
  rr_comments :: nat
  rr_viewsPerDay :: int
  rr_url :: ustring

text \<open>
  The filter, decided on the item: the age in days of the record when it is kept. \<open>t\<close> is
  the instant at which the \<^verbatim>\<open>map\<close> reads the clock for the item, \<open>tf\<close> the instant at which
  the filter does.
\<close>

definition routeKeep :: "runtime \<Rightarrow> int \<Rightarrow> int \<Rightarrow> int \<Rightarrow> videoItem \<Rightarrow> int option" where
  "routeKeep R t tf cutoff v =
     (case v_publishedAt v of
        None \<Rightarrow> if cutoff < tf then Some 1 else None
      | Some pa \<Rightarrow>
          (case parseDate R pa of
             None \<Rightarrow> None
           | Some p \<Rightarrow> if cutoff < p then Some (max 1 (diffDays R t p)) else None))"

definition routeRow :: "runtime \<Rightarrow> videoItem \<Rightarrow> int \<Rightarrow> RouteRow" where
  "routeRow R v age =
     (let views = orZero (v_viewCount v);
          likes = orZero (v_likeCount v);
          comments = orZero (v_commentCount v);
          durSec = iso8601DurationToSeconds
                     (if truthy (v_duration v) then orEmpty (v_duration v) else ascii ''PT0S'');
          perDay = fl R (real views / real_of_int age)
      in \<lparr>rr_videoId = v_id v, rr_title = v_title v, rr_publishedAt = v_publishedAt v,
           rr_durationSec = durSec, rr_views = views, rr_likes = likes,
           rr_comments = comments, rr_viewsPerDay = round perDay,
           rr_url = watchUrl @ v_id v\<rparr>)"

text \<open>\<^verbatim>\<open>videos.map(...).filter(...).sort(...)\<close>, by views per day, the highest first.\<close>

definition routeRows ::
  "runtime \<Rightarrow> (videoItem \<Rightarrow> int) \<Rightarrow> (videoItem \<Rightarrow> int) \<Rightarrow> int \<Rightarrow> videoItem list
     \<Rightarrow> RouteRow list" where
  "routeRows R clock filterClock cutoff videos =
     sort_key (\<lambda>r. - rr_viewsPerDay r)
       (List.map_filter
          (\<lambda>v. map_option (routeRow R v) (routeKeep R (clock v) (filterClock v) cutoff v))
          videos)"

section \<open>Window, cache and timing predicates\<close>

















text \<open>The provider's answers without the video items that have no \<^verbatim>\<open>publishedAt\<close>.\<close>

definition dated :: "videoItem \<Rightarrow> bool" where
  "dated v \<longleftrightarrow> v_publishedAt v \<noteq> None"

definition withoutUndated :: "provider \<Rightarrow> provider" where
  "withoutUndated P = P\<lparr>videosGET := \<lambda>ids. map_sum id (filter dated) (videosGET P ids)\<rparr>"

subsection \<open>A provider for the examples\<close>

text \<open>
  One channel, found under the handle \<^verbatim>\<open>@demo\<close>, with three videos: one published a second
  after 2024-01-03T00:00:00Z, one at that instant, one without date.
\<close>

definition demoChannel :: channelItem where
  "demoChannel =
     \<lparr>ci_id = ascii ''UCdemo'', ci_title = Some (ascii ''Demo''),
      ci_uploads = Some (ascii ''UUdemo''), ci_subscriberCount = Some 5,
      ci_viewCount = Some 1000, ci_videoCount = Some 3\<rparr>"

definition demoVideo1 :: videoItem where
  "demoVideo1 =
     \<lparr>v_id = ascii ''v1'', v_title = Some (ascii ''foo review bar''),
      v_publishedAt = Some (ascii ''2024-01-03T00:00:01Z''), v_viewCount = Some 600,
      v_likeCount = None, v_commentCount = None, v_duration = Some (ascii ''PT1H2M3S'')\<rparr>"

definition demoVideo2 :: videoItem where
  "demoVideo2 =
     \<lparr>v_id = ascii ''v2'', v_title = Some (ascii ''foo bar''),
      v_publishedAt = Some (ascii ''2024-01-03T00:00:00Z''), v_viewCount = Some 700,
      v_likeCount = None, v_commentCount = None, v_duration = None\<rparr>"

definition demoVideo3 :: videoItem where
  "demoVideo3 =
     \<lparr>v_id = ascii ''v3'', v_title = None, v_publishedAt = None, v_viewCount = Some 50,
      v_likeCount = None, v_commentCount = None, v_duration = None\<rparr>"

definition demoVideos :: "videoItem list" where
  "demoVideos = [demoVideo1, demoVideo2, demoVideo3]"

definition demoProvider :: provider where
  "demoProvider =
     \<lparr>channelsGET = (\<lambda>p. if value_of p = ascii ''@demo'' then Inr [demoChannel] else Inr []),
      playlistItemsGET =
        (\<lambda>playlistId n pageToken.
           Inr \<lparr>items = [Some (ascii ''v1''), Some (ascii ''v2''), Some (ascii ''v3'')],
                nextPageToken = None\<rparr>),
      videosGET = (\<lambda>ids. Inr demoVideos)\<rparr>"

text \<open>The request of the examples: the handle \<^verbatim>\<open>@demo\<close>, a window of seven days.\<close>

definition demoBody :: body where
  "demoBody = \<lparr>inputs = [ascii ''@demo''], days = Some 7, maxVideos = None\<rparr>"

text \<open>2024-01-10T00:00:00Z, seven days after 2024-01-03T00:00:00Z.\<close>

definition demoNow :: int where
  "demoNow = 1704844800000"

text \<open>
  The instants of a request that starts at \<open>t\<close>: each turn looks into the cache after 10
  milliseconds, builds its records after half a second and stores its bundle after 900
  milliseconds.
\<close>

definition demoTurns :: "int \<Rightarrow> nat \<Rightarrow> turn" where
  "demoTurns t i = \<lparr>getAt = t + 10, rowAt = (\<lambda>v. t + 500), setAt = t + 900\<rparr>"

text \<open>What the first request builds and stores.\<close>

definition demoRef :: parsed where
  "demoRef = \<lparr>kind_of = ForHandle, value_of = ascii ''@demo''\<rparr>"

definition demoCh :: ChannelRecord where
  "demoCh =
     \<lparr>ch_channelId = ascii ''UCdemo'', ch_title = Some (ascii ''Demo''),
      uploadsPlaylistId = Some (ascii ''UUdemo''), subscribers = 5, totalViews = 1000,
      videoCount = 3\<rparr>"

definition demoRow :: Row where
  "demoRow =
     \<lparr>channelId = ascii ''UCdemo'', channelTitle = Some (ascii ''Demo''),
      videoId = ascii ''v1'', title = Some (ascii ''foo review bar''),
      publishedAt = ascii ''2024-01-03T00:00:01Z'', durationSec = 3723, views = 600,
      likes = 0, comments = 0, ageDays = 6, viewsPerDay = 100, velocity = 100,
      hookTag = khac, url = ascii ''https://www.youtube.com/watch?v=v1''\<rparr>"

definition demoBundle :: Bundle where
  "demoBundle =
     \<lparr>b_ch = demoCh, b_rows = [demoRow],
      b_patterns = [\<lparr>phrase = ascii ''foo bar'', count = 1\<rparr>],
      b_topByVelocity = [demoRow], b_topByVpd = [demoRow]\<rparr>"

definition demoCache :: cache where
  "demoCache = [((demoRef, 7, 80), demoBundle, demoNow + 900)]"


text \<open>The count that a frequency list holds for a key, 0 when the key is absent.\<close>

definition counted :: "(ustring \<times> nat) list \<Rightarrow> ustring \<Rightarrow> nat" where
  "counted f k = (case map_of f k of None \<Rightarrow> 0 | Some c \<Rightarrow> c)"

subsection \<open>Further data for the examples\<close>






text \<open>
  A request whose second input no channel answers to, one that names the channel twice and
  one that names it three times.
\<close>

definition nobodyBody :: body where
  "nobodyBody = \<lparr>inputs = [ascii ''@demo'', ascii ''@nobody''], days = Some 7, maxVideos = None\<rparr>"





section \<open>Facts about strings\<close>

lemma startsWith_prefix: "startsWith s p \<longleftrightarrow> prefix p s"
  by (induction s p rule: startsWith.induct) auto

lemma includesStr_sublist: "includesStr s k \<longleftrightarrow> sublist k s"
  by (induction s) (auto simp: startsWith_prefix sublist_Cons_right)

lemmas demo_text =
  cleanTitle_def demoRuntime_def trim_def isSpace_def latinLetterOrNumber_def lowerAscii_def
  ascii_def orEmpty_def

section \<open>The duration normalizer\<close>

lemma afterPT_None_iff: "afterPT d = None \<longleftrightarrow> \<not> includesStr d [80, 84]"
  by (induction d rule: afterPT.induct) auto

lemma segment_present:
  assumes "ds \<noteq> []" "list_all isDigit ds" "\<not> isDigit u"
  shows "segment u (ds @ u # rest) = (Some ds, rest)"
proof -
  have "takeWhile isDigit (ds @ u # rest) = ds" "dropWhile isDigit (ds @ u # rest) = u # rest"
    using assms by (auto simp: list_all_iff)
  then show ?thesis using assms by (simp add: segment_def)
qed

lemma segment_other:
  assumes "list_all isDigit ds" "\<not> isDigit v" "v \<noteq> u"
  shows "segment u (ds @ v # rest) = (None, ds @ v # rest)"
proof -
  have "takeWhile isDigit (ds @ v # rest) = ds" "dropWhile isDigit (ds @ v # rest) = v # rest"
    using assms by (auto simp: list_all_iff)
  then show ?thesis using assms by (simp add: segment_def)
qed

lemma segment_Nil: "segment u [] = (None, [])"
  by (simp add: segment_def)

lemma unit_not_digit: "\<not> isDigit 72" "\<not> isDigit 77" "\<not> isDigit 83"
  by (simp_all add: isDigit_def)

lemma segments_isoForm:
  assumes "digits h" "digits m" "digits s"
  shows "segment 72 (isoSegment h 72 @ isoSegment m 77 @ isoSegment s 83) =
           (h, isoSegment m 77 @ isoSegment s 83)"
    and "segment 77 (isoSegment m 77 @ isoSegment s 83) = (m, isoSegment s 83)"
    and "segment 83 (isoSegment s 83) = (s, [])"
  using assms
  by (auto simp: digits_def isoSegment_def segment_Nil segment_present segment_other
      unit_not_digit split: option.splits)

lemma iso_isoForm:
  assumes "digits h" "digits m" "digits s"
  shows "iso8601DurationToSeconds (isoForm h m s) =
         groupValue h * 3600 + groupValue m * 60 + groupValue s"
  using assms
  by (simp add: iso8601DurationToSeconds_def isoForm_def ascii_def segments_isoForm)

text \<open>Every string of the form satisfies \<open>isIsoForm\<close>, so a string that fails it is not of the form.\<close>

lemma isoForm_isIsoForm:
  assumes "digits h" "digits m" "digits s"
  shows "isIsoForm (isoForm h m s)"
  using assms by (simp add: isIsoForm_def isoForm_def ascii_def segments_isoForm)

lemmas demo_duration =
  iso8601DurationToSeconds_def ascii_def segment_def isDigit_def groupValue_def parseInt_def
  isIsoForm_def

text \<open>
  Claim C7, as the code has it. A string of the form \<^verbatim>\<open>PT[nH][nM][nS]\<close>, each segment present
  or not, gives \<open>H * 3600 + M * 60 + S\<close>, where \<open>H\<close>, \<open>M\<close> and \<open>S\<close> are the numbers that the
  digits of the segments write and 0 for a missing segment (as long as the sum is below
  \<open>2 ^ 53\<close>, where the numbers of the engine are exact). A string in which \<^verbatim>\<open>PT\<close> does not occur
  gives 0. The function is total: it never throws.
\<close>

theorem iso8601_duration:
  "(digits h \<and> digits m \<and> digits s \<and>
      groupValue h * 3600 + groupValue m * 60 + groupValue s < 2 ^ 53
      \<longrightarrow> iso8601DurationToSeconds (isoForm h m s) =
          groupValue h * 3600 + groupValue m * 60 + groupValue s) \<and>
   (\<not> sublist (ascii ''PT'') d \<longrightarrow> iso8601DurationToSeconds d = 0)"
proof (intro conjI impI)
  assume "digits h \<and> digits m \<and> digits s \<and>
      groupValue h * 3600 + groupValue m * 60 + groupValue s < 2 ^ 53"
  then show "iso8601DurationToSeconds (isoForm h m s) =
          groupValue h * 3600 + groupValue m * 60 + groupValue s"
    by (simp add: iso_isoForm)
next
  assume "\<not> sublist (ascii ''PT'') d"
  then have "afterPT d = None"
    by (simp add: afterPT_None_iff includesStr_sublist ascii_def)
  then show "iso8601DurationToSeconds d = 0"
    by (simp add: iso8601DurationToSeconds_def)
qed

text \<open>
  Witness for C7: \<^verbatim>\<open>PT1H2M3S\<close> is 3723 seconds, and \<^verbatim>\<open>P1DT2H\<close>, in which \<^verbatim>\<open>PT\<close> does not occur,
  is 0 seconds.
\<close>

theorem iso8601_duration_witness:
  "digits (Some (ascii ''1'')) \<and> digits (Some (ascii ''2'')) \<and> digits (Some (ascii ''3'')) \<and>
   isoForm (Some (ascii ''1'')) (Some (ascii ''2'')) (Some (ascii ''3'')) = ascii ''PT1H2M3S'' \<and>
   iso8601DurationToSeconds (ascii ''PT1H2M3S'') = 3723 \<and>
   \<not> sublist (ascii ''PT'') (ascii ''P1DT2H'') \<and>
   iso8601DurationToSeconds (ascii ''P1DT2H'') = 0"
  using iso8601_duration [of "Some (ascii ''1'')" "Some (ascii ''2'')" "Some (ascii ''3'')"
      "ascii ''P1DT2H''"]
  by (simp add: digits_def isoForm_def isoSegment_def demo_duration sublist_Cons_right
      prefix_Cons)

text \<open>
  Counterexample to C7 as stated: \<^verbatim>\<open>xPT5M\<close> is not of the form \<^verbatim>\<open>PT[nH][nM][nS]\<close>, and the
  result is 300, not 0, because the pattern is searched for anywhere in the string.
\<close>

theorem iso8601_duration_counterexample:
  "\<not> isIsoForm (ascii ''xPT5M'') \<and> iso8601DurationToSeconds (ascii ''xPT5M'') = 300"
  by (simp add: demo_duration)

section \<open>The hook classifier\<close>

lemma firstMatch_none:
  "(\<forall>r \<in> set rs. \<not> includesStr t (fst r)) \<Longrightarrow> firstMatch t rs = khac"
  by (induction rs) auto

lemma firstMatch_least:
  "i < length rs \<Longrightarrow> includesStr t (fst (rs ! i)) \<Longrightarrow> (\<forall>j<i. \<not> includesStr t (fst (rs ! j)))
     \<Longrightarrow> firstMatch t rs = snd (rs ! i)"
proof (induction rs arbitrary: i)
  case Nil
  then show ?case by simp
next
  case (Cons r rs)
  obtain k tg where r: "r = (k, tg)" by (cases r)
  show ?case
  proof (cases i)
    case 0
    with Cons.prems r show ?thesis by simp
  next
    case (Suc i')
    from Cons.prems(3) Suc have "\<not> includesStr t k" using r by fastforce
    moreover have "firstMatch t rs = snd (rs ! i')"
      using Cons.prems Suc by (intro Cons.IH) auto
    ultimately show ?thesis using r Suc by simp
  qed
qed

lemma firstMatch_earlier:
  assumes "i < length rs" "includesStr t (fst (rs ! i))"
  shows "\<exists>k\<le>i. firstMatch t rs = snd (rs ! k) \<and> includesStr t (fst (rs ! k))"
proof -
  define k where "k = (LEAST k. includesStr t (fst (rs ! k)))"
  have km: "includesStr t (fst (rs ! k))" unfolding k_def using assms(2) by (rule LeastI)
  have kle: "k \<le> i" unfolding k_def using assms(2) by (rule Least_le)
  have "\<forall>j<k. \<not> includesStr t (fst (rs ! j))" unfolding k_def using not_less_Least by blast
  with km kle assms(1) have "firstMatch t rs = snd (rs ! k)"
    by (intro firstMatch_least) auto
  with km kle show ?thesis by blast
qed

lemma rules_tags_distinct: "distinct (map snd rules)"
  by (simp add: rules_def)

lemma khac_not_tag: "khac \<notin> snd ` set rules"
  by (simp add: rules_def khac_def)

lemma length_rules: "length rules = 7" by (simp add: rules_def)


text \<open>
  Claim C3. The classifier returns the tag of the first rule, in the order of the table,
  whose keyword is a substring of the cleaned title; when the keywords of two rules occur,
  the tag is that of a rule at or before the earlier one and never that of the later one;
  when no keyword occurs, the tag is "Khac" (written with its accent in the source).
\<close>

theorem classifyHook_first_match:
  "(\<forall>i<length rules.
      sublist (fst (rules ! i)) (cleanTitle R t) \<and>
      (\<forall>j<i. \<not> sublist (fst (rules ! j)) (cleanTitle R t))
      \<longrightarrow> classifyHook R t = snd (rules ! i)) \<and>
   (\<forall>i j. i < j \<and> j < length rules \<and>
      sublist (fst (rules ! i)) (cleanTitle R t) \<and>
      sublist (fst (rules ! j)) (cleanTitle R t)
      \<longrightarrow> (\<exists>k\<le>i. classifyHook R t = snd (rules ! k)) \<and>
          classifyHook R t \<noteq> snd (rules ! j)) \<and>
   ((\<forall>r\<in>set rules. \<not> sublist (fst r) (cleanTitle R t))
      \<longrightarrow> classifyHook R t = khac)"
proof (intro conjI allI impI)
  fix i assume "i < length rules"
    and "sublist (fst (rules ! i)) (cleanTitle R t) \<and>
      (\<forall>j<i. \<not> sublist (fst (rules ! j)) (cleanTitle R t))"
  then show "classifyHook R t = snd (rules ! i)"
    unfolding classifyHook_def by (intro firstMatch_least) (auto simp: includesStr_sublist)
next
  fix i j
  assume a: "i < j \<and> j < length rules \<and>
      sublist (fst (rules ! i)) (cleanTitle R t) \<and>
      sublist (fst (rules ! j)) (cleanTitle R t)"
  then obtain k where k: "k \<le> i" "classifyHook R t = snd (rules ! k)"
    using firstMatch_earlier[of i rules "cleanTitle R t"]
    by (auto simp: classifyHook_def includesStr_sublist)
  then show "\<exists>k\<le>i. classifyHook R t = snd (rules ! k)" by blast
  have "k < j" "j < length rules" "k < length rules" using a k by auto
  then have "map snd rules ! k \<noteq> map snd rules ! j"
    using rules_tags_distinct nth_eq_iff_index_eq[of "map snd rules" k j] by auto
  then show "classifyHook R t \<noteq> snd (rules ! j)"
    using k \<open>j < length rules\<close> \<open>k < length rules\<close> by simp
next
  assume "\<forall>r\<in>set rules. \<not> sublist (fst r) (cleanTitle R t)"
  then show "classifyHook R t = khac"
    unfolding classifyHook_def by (intro firstMatch_none) (auto simp: includesStr_sublist)
qed


lemma demo_hook_title:
  "cleanTitle demoRuntime
     (Some [0x54, 0x72, 0xF9, 0x6E, 0x67, 0x20, 0x73, 0x69, 0x6E, 0x68, 0x2C, 0x20, 0x68,
            0x1EC7, 0x20, 0x74, 0x68, 0x1ED1, 0x6E, 0x67, 0x21]) =
     [0x74, 0x72, 0xF9, 0x6E, 0x67, 0x20, 0x73, 0x69, 0x6E, 0x68, 0x20, 0x68, 0x1EC7, 0x20,
      0x74, 0x68, 0x1ED1, 0x6E, 0x67]"
  by (simp add: demo_text)

lemma demo_hook_keywords:
  "\<not> sublist (fst (rules ! 0)) [0x74, 0x72, 0xF9, 0x6E, 0x67, 0x20, 0x73, 0x69, 0x6E, 0x68, 0x20, 0x68, 0x1EC7, 0x20, 0x74, 0x68, 0x1ED1, 0x6E, 0x67]"
  "\<not> sublist (fst (rules ! 4)) [0x74, 0x72, 0xF9, 0x6E, 0x67, 0x20, 0x73, 0x69, 0x6E, 0x68, 0x20, 0x68, 0x1EC7, 0x20, 0x74, 0x68, 0x1ED1, 0x6E, 0x67]"
  "sublist (fst (rules ! 5)) [0x74, 0x72, 0xF9, 0x6E, 0x67, 0x20, 0x73, 0x69, 0x6E, 0x68, 0x20, 0x68, 0x1EC7, 0x20, 0x74, 0x68, 0x1ED1, 0x6E, 0x67]"
  "sublist (fst (rules ! 6)) [0x74, 0x72, 0xF9, 0x6E, 0x67, 0x20, 0x73, 0x69, 0x6E, 0x68, 0x20, 0x68, 0x1EC7, 0x20, 0x74, 0x68, 0x1ED1, 0x6E, 0x67]"
  unfolding includesStr_sublist[symmetric] by (simp_all add: rules_def)

text \<open>
  Witness for C3: the cleaned form of "Trung sinh, he thong!" (written with its accents)
  contains the keywords of rules 5 and 6 (counted from 0), and the tag is that of rule 5,
  although the keyword of rule 6 stands first in the title; a title without keyword gets
  the fallback tag.
\<close>

theorem classifyHook_first_match_witness:
  "cleanTitle demoRuntime
     (Some [0x54, 0x72, 0xF9, 0x6E, 0x67, 0x20, 0x73, 0x69, 0x6E, 0x68, 0x2C, 0x20, 0x68,
            0x1EC7, 0x20, 0x74, 0x68, 0x1ED1, 0x6E, 0x67, 0x21]) =
     [0x74, 0x72, 0xF9, 0x6E, 0x67, 0x20, 0x73, 0x69, 0x6E, 0x68, 0x20, 0x68, 0x1EC7, 0x20,
      0x74, 0x68, 0x1ED1, 0x6E, 0x67] \<and>
   sublist (fst (rules ! 5))
     [0x74, 0x72, 0xF9, 0x6E, 0x67, 0x20, 0x73, 0x69, 0x6E, 0x68, 0x20, 0x68, 0x1EC7, 0x20,
      0x74, 0x68, 0x1ED1, 0x6E, 0x67] \<and>
   sublist (fst (rules ! 6))
     [0x74, 0x72, 0xF9, 0x6E, 0x67, 0x20, 0x73, 0x69, 0x6E, 0x68, 0x20, 0x68, 0x1EC7, 0x20,
      0x74, 0x68, 0x1ED1, 0x6E, 0x67] \<and>
   classifyHook demoRuntime
     (Some [0x54, 0x72, 0xF9, 0x6E, 0x67, 0x20, 0x73, 0x69, 0x6E, 0x68, 0x2C, 0x20, 0x68,
            0x1EC7, 0x20, 0x74, 0x68, 0x1ED1, 0x6E, 0x67, 0x21]) = snd (rules ! 5) \<and>
   snd (rules ! 5) = [0x48, 0x1EC7, 0x20, 0x74, 0x68, 0x1ED1, 0x6E, 0x67] \<and>
   classifyHook demoRuntime (Some (ascii ''hello world'')) = khac"
  using classifyHook_first_match [of demoRuntime
      "Some [0x54, 0x72, 0xF9, 0x6E, 0x67, 0x20, 0x73, 0x69, 0x6E, 0x68, 0x2C, 0x20, 0x68,
             0x1EC7, 0x20, 0x74, 0x68, 0x1ED1, 0x6E, 0x67, 0x21]"]
  unfolding demo_hook_title
  by (simp add: demo_hook_keywords) (simp add: classifyHook_def rules_def demo_text)

section \<open>The pattern miner\<close>

subsection \<open>split and join\<close>

lemma splitSpace_not_Nil: "splitSpace s \<noteq> []"
  by (induction s) (auto split: list.splits)

lemma splitSpace_no_space: "t \<in> set (splitSpace s) \<Longrightarrow> 32 \<notin> set t"
  by (induction s arbitrary: t) (auto split: list.splits if_splits)

lemma splitSpace_atom: "32 \<notin> set t \<Longrightarrow> splitSpace t = [t]"
  by (induction t) auto

lemma splitSpace_append: "32 \<notin> set t \<Longrightarrow> splitSpace (t @ 32 # s) = t # splitSpace s"
  by (induction t) (auto split: list.splits)

lemma splitSpace_joinSpace:
  "ts \<noteq> [] \<Longrightarrow> (\<forall>t\<in>set ts. 32 \<notin> set t) \<Longrightarrow> splitSpace (joinSpace ts) = ts"
  by (induction ts rule: joinSpace.induct) (auto simp: splitSpace_atom splitSpace_append)

lemma joinSpace_Cons: "joinSpace ((c # t) # ts) = c # joinSpace (t # ts)"
  by (cases ts) auto

lemma joinSpace_splitSpace: "joinSpace (splitSpace s) = s"
proof (induction s)
  case Nil
  then show ?case by simp
next
  case (Cons c cs)
  obtain t ts where sp: "splitSpace cs = t # ts"
    using splitSpace_not_Nil[of cs] by (cases "splitSpace cs") auto
  with Cons show ?case by (auto simp: joinSpace_Cons)
qed

subsection \<open>frequency map\<close>

lemma keys_list_bump:
  "map fst (bump g f) = (if g \<in> fst ` set f then map fst f else map fst f @ [g])"
  by (induction f) (auto split: if_splits)

lemma keys_bump: "fst ` set (bump g f) = insert g (fst ` set f)"
proof -
  have "fst ` set (bump g f) = set (map fst (bump g f))" by simp
  also have "\<dots> = insert g (fst ` set f)" by (subst keys_list_bump) auto
  finally show ?thesis .
qed

lemma distinct_bump: "distinct (map fst f) \<Longrightarrow> distinct (map fst (bump g f))"
  by (subst keys_list_bump) auto

lemma map_of_bump:
  "map_of (bump g f) k =
     (if k = g then Some (case map_of f g of None \<Rightarrow> 1 | Some c \<Rightarrow> c + 1) else map_of f k)"
  by (induction f) auto

lemma counted_Nil: "counted [] k = 0"
  by (simp add: counted_def)

lemma counted_bump: "counted (bump g f) k = counted f k + (if k = g then 1 else 0)"
  by (simp add: counted_def map_of_bump split: option.splits)

lemma fold_bump:
  "fst ` set (foldl (\<lambda>f g. bump g f) f gs) = fst ` set f \<union> set gs"
  "distinct (map fst f) \<Longrightarrow> distinct (map fst (foldl (\<lambda>f g. bump g f) f gs))"
  "counted (foldl (\<lambda>f g. bump g f) f gs) k = counted f k + count_list gs k"
  by (induction gs arbitrary: f) (auto simp: keys_bump distinct_bump counted_bump)

lemma foldl_countTitle:
  "foldl (countTitle R a b) f ts =
     foldl (\<lambda>f g. bump g f) f (concat (map (\<lambda>t. gramsOf a b (tokens R t)) ts))"
  by (induction ts arbitrary: f) (auto simp: countTitle_def)

lemma set_byCountDesc: "set (byCountDesc es) = set es"
  by (simp add: byCountDesc_def)

lemma extractNgrams_entry:
  assumes "e \<in> set (extractNgrams R ts a b)"
  shows "phrase e \<in> set (concat (map (\<lambda>t. gramsOf a b (tokens R t)) ts)) \<and>
         count e = count_list (concat (map (\<lambda>t. gramsOf a b (tokens R t)) ts)) (phrase e)"
proof -
  let ?gs = "concat (map (\<lambda>t. gramsOf a b (tokens R t)) ts)"
  let ?f = "foldl (\<lambda>f g. bump g f) [] ?gs"
  from assms obtain p c where pc: "(p, c) \<in> set (take 50 (byCountDesc ?f))" "e = \<lparr>phrase = p, count = c\<rparr>"
    by (auto simp: extractNgrams_def foldl_countTitle)
  then have mem: "(p, c) \<in> set ?f" using set_byCountDesc by (metis in_set_takeD)
  have d: "distinct (map fst ?f)" by (simp add: fold_bump)
  have "p \<in> fst ` set ?f" using mem by force
  then have 1: "p \<in> set ?gs" by (simp add: fold_bump)
  have "map_of ?f p = Some c" using d mem by simp
  then have "counted ?f p = c" by (simp add: counted_def)
  then have "c = count_list ?gs p" using fold_bump(3)[of "[]" ?gs p] by (simp add: counted_Nil)
  with 1 pc show ?thesis by simp
qed

lemma gramsOf_not_rejected: "g \<in> set (gramsOf a b w) \<Longrightarrow> \<not> rejected g"
  by (auto simp: gramsOf_def gramsOfLength_def)


text \<open>
  Claim C4. Whatever the titles, no piece of a returned phrase, split at its spaces, is a
  stopword.
\<close>

theorem no_stopword_in_patterns:
  "\<forall>e\<in>set (extractNgrams R ts nMin nMax). \<forall>x\<in>set (splitSpace (phrase e)). \<not> isStop x"
proof (intro ballI)
  fix e x assume e: "e \<in> set (extractNgrams R ts nMin nMax)" and x: "x \<in> set (splitSpace (phrase e))"
  from extractNgrams_entry[OF e] obtain t where "phrase e \<in> set (gramsOf nMin nMax (tokens R t))"
    by auto
  then have "\<not> rejected (phrase e)" by (rule gramsOf_not_rejected)
  with x show "\<not> isStop x" by (auto simp: rejected_def list_ex_iff)
qed



lemma upt_2_5: "[2 ..< 4 + 1] = [2, 3, 4::nat]"
  by (simp add: upt_rec)

lemma gramsOf_2_4: "gramsOf 2 4 w = gramsOfLength w 2 @ gramsOfLength w 3 @ gramsOfLength w 4"
  by (simp add: gramsOf_def upt_2_5)

lemma demo_tokens:
  "cleanTitle demoRuntime (Some (ascii ''foo review bar'')) = ascii ''foo review bar''"
  "words demoRuntime (Some (ascii ''foo review bar'')) =
     [ascii ''foo'', ascii ''review'', ascii ''bar'']"
  "tokens demoRuntime (Some (ascii ''foo review bar'')) = [ascii ''foo'', ascii ''bar'']"
  by (simp_all add: tokens_def words_def demo_text isStop_def stop_def jsLength_def)

lemma demo_grams:
  "gramsOf 2 4 [ascii ''foo'', ascii ''bar''] = [ascii ''foo bar'']"
  unfolding gramsOf_2_4
  by (simp add: gramsOfLength_def gramAt_def slice_def rejected_def upt_rec ascii_def
      isStop_def stop_def)

lemma demo_patterns:
  "extractNgrams demoRuntime [Some (ascii ''foo review bar'')] 2 4 =
     [\<lparr>phrase = ascii ''foo bar'', count = 1\<rparr>]"
  by (simp add: extractNgrams_def countTitle_def demo_tokens demo_grams byCountDesc_def)

text \<open>
  Witness for C4: the title "foo review bar" gives the one phrase "foo bar", whose pieces
  are not stopwords, although the stopword "review" stood between them.
\<close>

theorem no_stopword_in_patterns_witness:
  "extractNgrams demoRuntime [Some (ascii ''foo review bar'')] 2 4 =
     [\<lparr>phrase = ascii ''foo bar'', count = 1\<rparr>] \<and>
   splitSpace (ascii ''foo bar'') = [ascii ''foo'', ascii ''bar''] \<and>
   \<not> isStop (ascii ''foo'') \<and> \<not> isStop (ascii ''bar'') \<and> isStop (ascii ''review'')"
  using no_stopword_in_patterns [of demoRuntime "[Some (ascii ''foo review bar'')]" 2 4]
  by (simp add: demo_patterns) (simp add: ascii_def isStop_def stop_def)

lemma words_no_space: "x \<in> set (words R t) \<Longrightarrow> 32 \<notin> set x"
  by (auto simp: words_def dest: splitSpace_no_space)

lemma tokens_atoms: "x \<in> set (tokens R t) \<Longrightarrow> 32 \<notin> set x \<and> \<not> isStop x"
  by (auto simp: tokens_def dest: words_no_space)

lemma count_list_concat: "count_list (concat xss) p = sum_list (map (\<lambda>xs. count_list xs p) xss)"
  by (induction xss) auto

lemma count_list_filter: "count_list (filter P xs) p = (if P p then count_list xs p else 0)"
  by (induction xs) auto

lemma count_list_map: "count_list (map f xs) p = length (filter (\<lambda>x. f x = p) xs)"
  by (induction xs) auto

lemma split_gramAt:
  assumes w: "\<forall>x\<in>set w. 32 \<notin> set x" and n: "0 < n" and i: "i < length w + 1 - n"
  shows "splitSpace (gramAt w n i) = take n (drop i w)" "length (take n (drop i w)) = n"
proof -
  show len: "length (take n (drop i w)) = n" using i by simp
  have "take n (drop i w) \<noteq> []" using len n by auto
  moreover have "\<forall>t\<in>set (take n (drop i w)). 32 \<notin> set t"
    using w by (meson in_set_dropD in_set_takeD)
  ultimately show "splitSpace (gramAt w n i) = take n (drop i w)"
    by (simp add: gramAt_def slice_def splitSpace_joinSpace)
qed

lemma gram_positions:
  assumes w: "\<forall>x\<in>set w. 32 \<notin> set x" and n: "0 < n"
  shows "length (filter (\<lambda>i. gramAt w n i = p) [0 ..< length w + 1 - n]) =
         (if length (splitSpace p) = n then occurrences (splitSpace p) w else 0)"
proof (cases "length (splitSpace p) = n")
  case True
  have "filter (\<lambda>i. gramAt w n i = p) [0 ..< length w + 1 - n] =
        filter (\<lambda>i. take n (drop i w) = splitSpace p) [0 ..< length w + 1 - n]"
  proof (rule filter_cong[OF refl])
    fix i assume "i \<in> set [0 ..< length w + 1 - n]"
    then have i: "i < length w + 1 - n" by simp
    have s: "splitSpace (gramAt w n i) = take n (drop i w)" by (rule split_gramAt(1)[OF w n i])
    show "(gramAt w n i = p) = (take n (drop i w) = splitSpace p)"
    proof
      assume "gramAt w n i = p" with s show "take n (drop i w) = splitSpace p" by simp
    next
      assume a: "take n (drop i w) = splitSpace p"
      have "splitSpace p \<noteq> []" by (rule splitSpace_not_Nil)
      have "joinSpace (splitSpace p) = p" by (rule joinSpace_splitSpace)
      with a show "gramAt w n i = p" by (simp add: gramAt_def slice_def)
    qed
  qed
  with True show ?thesis by (simp add: occurrences_def)
next
  case False
  have "filter (\<lambda>i. gramAt w n i = p) [0 ..< length w + 1 - n] = []"
  proof (rule filter_False, rule ballI)
    fix i assume "i \<in> set [0 ..< length w + 1 - n]"
    then have i: "i < length w + 1 - n" by simp
    have "length (splitSpace (gramAt w n i)) = n"
      using split_gramAt[OF w n i] by simp
    with False show "\<not> gramAt w n i = p" by auto
  qed
  with False show ?thesis by simp
qed


lemma count_gramsOfLength:
  assumes w: "\<forall>x\<in>set w. 32 \<notin> set x" and p: "\<not> rejected p" and n: "0 < n"
  shows "count_list (gramsOfLength w n) p =
         (if length (splitSpace p) = n then occurrences (splitSpace p) w else 0)"
proof -
  have "count_list (gramsOfLength w n) p =
        length (filter (\<lambda>i. gramAt w n i = p) [0 ..< length w + 1 - n])"
    unfolding gramsOfLength_def using p
    by (simp only: count_list_filter count_list_map if_True not_False_eq_True simp_thms)
  then show ?thesis by (simp only: gram_positions[OF w n])
qed

lemma count_gramsOf:
  assumes w: "\<forall>x\<in>set w. 32 \<notin> set x" and p: "\<not> rejected p"
    and n: "2 \<le> length (splitSpace p)" "length (splitSpace p) \<le> 4"
  shows "count_list (gramsOf 2 4 w) p = occurrences (splitSpace p) w"
proof -
  have "length (splitSpace p) = 2 \<or> length (splitSpace p) = 3 \<or> length (splitSpace p) = 4"
    using n by arith
  then show ?thesis
    by (auto simp: gramsOf_2_4 count_gramsOfLength[OF w p])
qed

lemma in_gramsOfLength:
  "p \<in> set (gramsOfLength w n) \<Longrightarrow> \<exists>i < length w + 1 - n. p = gramAt w n i"
  unfolding gramsOfLength_def by auto


text \<open>
  Claim C5, as the code has it. Every returned phrase has 2 to 4 pieces, which stand
  consecutively in the filtered token sequence of some input title (the tokens of the
  cleaned title that have at least two characters and are not stopwords), and its count is
  the number of places, over all titles, at which the pieces stand in the filtered token
  sequence.
\<close>

theorem patterns_are_token_ngrams:
  "\<forall>e\<in>set (extractNgrams R ts 2 4).
     2 \<le> length (splitSpace (phrase e)) \<and> length (splitSpace (phrase e)) \<le> 4 \<and>
     (\<exists>t\<in>set ts. sublist (splitSpace (phrase e)) (tokens R t)) \<and>
     count e = (\<Sum>t\<leftarrow>ts. occurrences (splitSpace (phrase e)) (tokens R t))"
proof
  fix e assume e: "e \<in> set (extractNgrams R ts 2 4)"
  let ?p = "phrase e"
  from extractNgrams_entry[OF e]
  have mem: "?p \<in> set (concat (map (\<lambda>t. gramsOf 2 4 (tokens R t)) ts))"
    and cnt: "count e = count_list (concat (map (\<lambda>t. gramsOf 2 4 (tokens R t)) ts)) ?p"
    by auto
  from mem obtain t where t: "t \<in> set ts" "?p \<in> set (gramsOf 2 4 (tokens R t))" by auto
  have atoms: "\<forall>x\<in>set (tokens R u). 32 \<notin> set x" for u using tokens_atoms by blast
  from t(2) obtain n where "n \<in> {2, 3, 4}" "?p \<in> set (gramsOfLength (tokens R t) n)"
    unfolding gramsOf_2_4 by auto
  then obtain n i where ni: "n \<in> {2, 3, 4}" "i < length (tokens R t) + 1 - n"
      "?p = gramAt (tokens R t) n i"
    using in_gramsOfLength by blast
  have n0: "0 < n" using ni(1) by auto
  have sp: "splitSpace ?p = take n (drop i (tokens R t))" "length (take n (drop i (tokens R t))) = n"
    using split_gramAt[OF atoms n0 ni(2)] ni(3) by auto
  have len: "2 \<le> length (splitSpace ?p)" "length (splitSpace ?p) \<le> 4"
    using sp ni(1) by auto
  have "tokens R t = take i (tokens R t) @ take n (drop i (tokens R t)) @ drop n (drop i (tokens R t))"
    by (simp only: append_take_drop_id)
  then have sub: "sublist (splitSpace ?p) (tokens R t)"
    unfolding sublist_def sp(1) by blast
  have rej: "\<not> rejected ?p" using t(2) by (rule gramsOf_not_rejected)
  have "count e = (\<Sum>t\<leftarrow>ts. count_list (gramsOf 2 4 (tokens R t)) ?p)"
    using cnt by (simp add: count_list_concat comp_def)
  also have "\<dots> = (\<Sum>t\<leftarrow>ts. occurrences (splitSpace ?p) (tokens R t))"
    by (simp add: count_gramsOf[OF atoms rej len])
  finally show "2 \<le> length (splitSpace ?p) \<and> length (splitSpace ?p) \<le> 4 \<and>
     (\<exists>t\<in>set ts. sublist (splitSpace ?p) (tokens R t)) \<and>
     count e = (\<Sum>t\<leftarrow>ts. occurrences (splitSpace ?p) (tokens R t))"
    using len sub t(1) by blast
qed


text \<open>
  Witness for C5: "foo bar" comes from "foo review bar" and stands once in its filtered
  token sequence.
\<close>

theorem patterns_are_token_ngrams_witness:
  "extractNgrams demoRuntime [Some (ascii ''foo review bar'')] 2 4 =
     [\<lparr>phrase = ascii ''foo bar'', count = 1\<rparr>] \<and>
   tokens demoRuntime (Some (ascii ''foo review bar'')) = [ascii ''foo'', ascii ''bar''] \<and>
   splitSpace (ascii ''foo bar'') = [ascii ''foo'', ascii ''bar''] \<and>
   occurrences [ascii ''foo'', ascii ''bar''] [ascii ''foo'', ascii ''bar''] = 1"
  using patterns_are_token_ngrams [of demoRuntime "[Some (ascii ''foo review bar'')]"]
  by (simp add: demo_patterns demo_tokens) (simp add: ascii_def occurrences_def)

text \<open>
  Counterexample to C5 as stated: the pieces of "foo bar" do not stand consecutively in
  the token sequence of the cleaned title "foo review bar"; the stopword is taken out
  before the windows are cut.
\<close>

theorem patterns_contiguous_counterexample:
  "extractNgrams demoRuntime [Some (ascii ''foo review bar'')] 2 4 =
     [\<lparr>phrase = ascii ''foo bar'', count = 1\<rparr>] \<and>
   \<not> sublist (splitSpace (ascii ''foo bar''))
       (words demoRuntime (Some (ascii ''foo review bar'')))"
  by (simp add: demo_patterns demo_tokens) (simp add: ascii_def sublist_Cons_right prefix_Cons)

section \<open>The metric calculator\<close>

lemma velocity_mono_views:
  assumes fl: "mono (fl R)" "fl R 0 = 0" "fl R 10 = 10"
    and lg: "mono_on {10..} (log10 R)" "0 \<le> log10 R 10"
    and v: "0 \<le> v" "v \<le> v'" and l: "0 \<le> l"
  shows "computeVelocity R v l a \<le> computeVelocity R v' l a"
proof -
  have "fl R 10 \<le> fl R (l + 10)" by (rule monoD[OF fl(1)]) (use l in simp)
  then have "10 \<le> fl R (l + 10)" using fl(3) by simp
  then have "log10 R 10 \<le> log10 R (fl R (l + 10))"
    using lg(1) by (auto simp: mono_on_def)
  then have L: "0 \<le> log10 R (fl R (l + 10))" using lg(2) by simp
  have "v / max 1 a \<le> v' / max 1 a" using v by (simp add: divide_right_mono)
  then have "fl R (v / max 1 a) \<le> fl R (v' / max 1 a)" by (rule monoD[OF fl(1)])
  then have "fl R (v / max 1 a) * log10 R (fl R (l + 10)) \<le>
             fl R (v' / max 1 a) * log10 R (fl R (l + 10))"
    using L by (rule mult_right_mono)
  then have "fl R (fl R (v / max 1 a) * log10 R (fl R (l + 10))) \<le>
             fl R (fl R (v' / max 1 a) * log10 R (fl R (l + 10)))"
    by (rule monoD[OF fl(1)])
  then show ?thesis by (simp add: computeVelocity_def Let_def round_mono)
qed

lemma velocity_mono_likes:
  assumes fl: "mono (fl R)" "fl R 0 = 0" "fl R 10 = 10"
    and lg: "mono_on {10..} (log10 R)"
    and v: "0 \<le> v" and l: "0 \<le> l" "l \<le> l'"
  shows "computeVelocity R v l a \<le> computeVelocity R v l' a"
proof -
  have "fl R 10 \<le> fl R (l + 10)" "fl R (l + 10) \<le> fl R (l' + 10)"
    by (rule monoD[OF fl(1)], use l in simp)+
  then have "10 \<le> fl R (l + 10)" "10 \<le> fl R (l' + 10)" "fl R (l + 10) \<le> fl R (l' + 10)"
    using fl(3) by simp_all
  then have L: "log10 R (fl R (l + 10)) \<le> log10 R (fl R (l' + 10))"
    using lg by (auto simp: mono_on_def)
  have "0 \<le> v / max 1 a" using v by simp
  then have "fl R 0 \<le> fl R (v / max 1 a)" by (rule monoD[OF fl(1)])
  then have V: "0 \<le> fl R (v / max 1 a)" using fl(2) by simp
  have "fl R (v / max 1 a) * log10 R (fl R (l + 10)) \<le>
        fl R (v / max 1 a) * log10 R (fl R (l' + 10))"
    using L V by (rule mult_left_mono)
  then have "fl R (fl R (v / max 1 a) * log10 R (fl R (l + 10))) \<le>
             fl R (fl R (v / max 1 a) * log10 R (fl R (l' + 10)))"
    by (rule monoD[OF fl(1)])
  then show ?thesis by (simp add: computeVelocity_def Let_def round_mono)
qed

text \<open>
  Claim C6. For non-negative integers \<open>views\<close>, \<open>likes\<close> and \<open>ageDays\<close>, the velocity does not
  decrease when \<open>views\<close> grows and does not decrease when \<open>likes\<close> grows. The numbers of the
  engine are doubles: the statement holds for every rounding \<open>fl\<close> that is monotone and exact
  at 0 and 10, as rounding to the nearest double is, and for every \<^verbatim>\<open>Math.log10\<close> that is
  monotone and not negative from 10 on.
\<close>

theorem computeVelocity_monotone:
  fixes views views' likes likes' ageDays :: nat
  assumes "mono (fl R)" and "fl R 0 = 0" and "fl R 10 = 10"
    and "mono_on {10..} (log10 R)" and "0 \<le> log10 R 10"
  shows "(views \<le> views' \<longrightarrow>
            computeVelocity R (real views) (real likes) (real ageDays)
              \<le> computeVelocity R (real views') (real likes) (real ageDays)) \<and>
         (likes \<le> likes' \<longrightarrow>
            computeVelocity R (real views) (real likes) (real ageDays)
              \<le> computeVelocity R (real views) (real likes') (real ageDays))"
  using assms by (auto intro!: velocity_mono_views velocity_mono_likes)

lemma log10_100: "log 10 (100::real) = 2"
proof -
  have "log 10 (10 ^ 2 :: real) = 2" by (subst log_nat_power) auto
  then show ?thesis by simp
qed

lemma demo_arith:
  "mono (fl demoRuntime)" "fl demoRuntime 0 = 0" "fl demoRuntime 10 = 10"
  "mono_on {10..} (log10 demoRuntime)" "0 \<le> log10 demoRuntime 10"
  by (auto simp: demoRuntime_def mono_def mono_on_def)

text \<open>
  Witness for C6: exact arithmetic and the real logarithm satisfy the hypotheses; 100 views
  a day give 100 without likes, 200 views a day give 200, and 90 likes give 200.
\<close>

theorem computeVelocity_monotone_witness:
  "mono (fl demoRuntime) \<and> fl demoRuntime 0 = 0 \<and> fl demoRuntime 10 = 10 \<and>
   mono_on {10..} (log10 demoRuntime) \<and> 0 \<le> log10 demoRuntime 10 \<and>
   computeVelocity demoRuntime 100 0 1 = 100 \<and>
   computeVelocity demoRuntime 200 0 1 = 200 \<and>
   computeVelocity demoRuntime 100 90 1 = 200"
  using computeVelocity_monotone [OF demo_arith, of 100 200 0 1 90]
  by (simp add: demo_arith) (simp add: computeVelocity_def demoRuntime_def log10_100)

section \<open>The cache\<close>

declare chunks.simps [simp del]





lemma cacheGet_stale:
  assumes "find (\<lambda>e. fst e = k) c = Some (k', b, start)" "ttl < t - start"
  shows "cacheGet k t c = (None, filter (\<lambda>e. fst e \<noteq> k) c)"
  using assms by (simp add: cacheGet_def)

lemma cacheGet_absent:
  assumes "find (\<lambda>e. fst e = k) c = None"
  shows "cacheGet k t c = (None, c)"
  using assms by (simp add: cacheGet_def)









lemma length_cacheSet: "length (cacheSet k b t c) \<le> maxEntries"
  by (simp add: cacheSet_def)





lemma handleInput_miss:
  assumes "fst (cacheGet (parseChannelInput input, d, m) (getAt T) c) = None"
  shows "handleInput R P T cutoff d m input c =
         (case fetchBundle R P (rowAt T) cutoff (parseChannelInput input) m of
            None \<Rightarrow> None
          | Some (Inl e, n) \<Rightarrow>
              Some (Inl e, snd (cacheGet (parseChannelInput input, d, m) (getAt T) c), n)
          | Some (Inr b, n) \<Rightarrow>
              Some (Inr b,
                    cacheSet (parseChannelInput input, d, m) b (setAt T)
                      (snd (cacheGet (parseChannelInput input, d, m) (getAt T) c)), n))"
  using assms
  by (cases "cacheGet (parseChannelInput input, d, m) (getAt T) c")
    (auto simp: handleInput_def Let_def split: option.splits sum.splits prod.splits)



section \<open>The loop over the inputs\<close>

lemma forInputs_append:
  "forInputs R P turns cutoff d m (pre @ rest) chs rs c n =
     (case forInputs R P turns cutoff d m pre chs rs c n of
        None \<Rightarrow> None
      | Some (Inl e, c', n') \<Rightarrow> Some (Inl e, c', n')
      | Some (Inr (chs', rs'), c', n') \<Rightarrow>
          forInputs R P (\<lambda>i. turns (length pre + i)) cutoff d m rest chs' rs' c' n')"
proof (induction pre arbitrary: turns chs rs c n)
  case Nil
  then show ?case by simp
next
  case (Cons input pre)
  show ?case
    by (simp add: Cons.IH split: option.splits sum.splits prod.splits)
qed









subsection \<open>The requests of the examples\<close>

lemma demo_parse: "parseChannelInput (ascii ''@demo'') = demoRef"
  by (simp add: parseChannelInput_def demoRef_def trim_def isSpace_def ascii_def lowerAscii_def)

lemma demo_resolve: "resolveChannel demoProvider demoRef = Inr demoCh"
  by (simp add: resolveChannel_def demoProvider_def demoRef_def demoChannel_def demoCh_def orZero_def)

lemma demo_list:
  "listPlaylistVideos demoProvider (ascii ''UUdemo'') 80 =
     Some (Inr [ascii ''v1'', ascii ''v2'', ascii ''v3''], 1)"
  by (simp add: listPlaylistVideos_def listLoop.simps demoProvider_def truthy_def orEmpty_def ascii_def)

lemma demo_details:
  "getVideosDetails demoProvider [ascii ''v1'', ascii ''v2'', ascii ''v3''] = (Inr demoVideos, 1)"
  by (simp add: getVideosDetails_def chunks.simps demoProvider_def)

lemma demo_cutoff: "cutoffOf demoRuntime demoNow 7 = 1704240000000"
  by (simp add: cutoffOf_def demoRuntime_def utcSubtractDays_def demoNow_def msPerDay_def)



lemma demo_age: "diffDays demoRuntime (demoNow + 500) 1704240001000 = 6"
  by (simp add: demoRuntime_def utcDiffDays_def demoNow_def msPerDay_def)

lemma demo_hook: "classifyHook demoRuntime (Some (ascii ''foo review bar'')) = khac"
  by (simp add: classifyHook_def rules_def demo_text)

lemma demo_duration_v1: "iso8601DurationToSeconds (ascii ''PT1H2M3S'') = 3723"
  by (simp add: iso8601DurationToSeconds_def ascii_def segment_def isDigit_def groupValue_def parseInt_def)


lemma demo_inWindow:
  "inWindow demoRuntime 1704240000000 demoVideo1 = Some (ascii ''2024-01-03T00:00:01Z'', 1704240001000)"
  "inWindow demoRuntime 1704240000000 demoVideo2 = None"
  "inWindow demoRuntime 1704240000000 demoVideo3 = None"
  by (simp_all add: inWindow_def demoVideo1_def demoVideo2_def demoVideo3_def demoRuntime_def demoDates_def ascii_def)

lemma demo_makeRow:
  "makeRow demoRuntime (demoNow + 500) demoCh demoVideo1 (ascii ''2024-01-03T00:00:01Z'') 1704240001000 =
     demoRow"
  by (simp add: makeRow_def demoVideo1_def demoCh_def demoRow_def orZero_def truthy_def orEmpty_def
      demo_hook demo_duration_v1 computeVelocity_def demo_age watchUrl_def)
    (simp add: demoRuntime_def ascii_def)

lemma demo_rows:
  "buildRows demoRuntime (\<lambda>v. demoNow + 500) 1704240000000 demoCh demoVideos = [demoRow]"
  by (simp add: buildRows_def demoVideos_def List.map_filter_simps demo_inWindow demo_makeRow)

lemma demo_titles: "title demoRow = Some (ascii ''foo review bar'')"
  by (simp add: demoRow_def)

lemma demo_makeBundle:
  "makeBundle demoRuntime (\<lambda>v. demoNow + 500) 1704240000000 demoCh demoVideos = demoBundle"
  by (simp add: makeBundle_def Let_def demo_rows topBy_def demo_titles demo_patterns demoBundle_def)

lemma demo_uploads:
  "truthy (uploadsPlaylistId demoCh)" "orEmpty (uploadsPlaylistId demoCh) = ascii ''UUdemo''"
  by (simp_all add: demoCh_def truthy_def orEmpty_def ascii_def)

lemma demo_fetch:
  "fetchBundle demoRuntime demoProvider (\<lambda>v. demoNow + 500) 1704240000000 demoRef 80 =
     Some (Inr demoBundle, 3)"
  by (simp add: fetchBundle_def demo_resolve demo_uploads demo_list demo_details demo_makeBundle)

lemma demo_first:
  "handleInput demoRuntime demoProvider (demoTurns demoNow i) 1704240000000 7 80 (ascii ''@demo'') [] =
     Some (Inr demoBundle, demoCache, 3)"
  by (simp add: handleInput_def demo_parse cacheGet_def demoTurns_def demo_fetch cacheSet_def
      maxEntries_def demoCache_def)









lemma demo_key: "truthy (Some (ascii ''key''))"
  by (simp add: truthy_def ascii_def)

lemma demo_schema: "BodySchema demoBody = Some ([ascii ''@demo''], 7, 80)"
  by (simp add: BodySchema_def demoBody_def jsLength_def ascii_def)

lemma demo_schema_split: "BodySchema demoBody = Some ([] @ ascii ''@demo'' # [], 7, 80)"
  by (simp add: demo_schema)

lemma demo_loop:
  "forInputs demoRuntime demoProvider (demoTurns demoNow) 1704240000000 7 80 [ascii ''@demo''] [] [] [] 0 =
     Some (Inr ([demoCh], [demoRow]), demoCache, 3)"
  by (simp add: demo_first) (simp add: demoBundle_def)

lemma demo_post:
  "POST demoRuntime demoProvider (Some (ascii ''key'')) demoNow (demoTurns demoNow) [] demoBody =
     Some (Success (respond demoRuntime 7 80 [demoCh] [demoRow]), demoCache, 3)"
  by (simp add: POST_def demo_key demo_schema demo_cutoff demo_loop del: forInputs.simps)








section \<open>A reference that no channel answers to\<close>

lemma sublist_dropWhile: "sublist (dropWhile P xs) xs"
  by (metis sublist_append_leftI takeWhile_dropWhile_id)

lemma sublist_trim: "sublist (trim s) s"
proof -
  have "sublist (rev (dropWhile isSpace (rev (dropWhile isSpace s)))) (rev (rev (dropWhile isSpace s)))"
    unfolding sublist_rev by (rule sublist_dropWhile)
  then have "sublist (trim s) (dropWhile isSpace s)" by (simp add: trim_def)
  then show ?thesis using sublist_dropWhile sublist_order.order_trans by blast
qed

lemma matchChannelId_sublist: "matchChannelId s = Some v \<Longrightarrow> sublist v s"
proof (induction s rule: matchChannelId.induct)
  case (1 a b cs)
  show ?case
  proof (cases "a = 85 \<and> b = 67 \<and> 20 \<le> length (takeWhile isIdChar cs)")
    case True
    with 1(2) have v: "v = a # b # takeWhile isIdChar cs" by simp
    have "a # b # cs = [] @ v @ dropWhile isIdChar cs" by (simp add: v)
    then show ?thesis unfolding sublist_def by blast
  next
    case False
    with 1 have "sublist v (b # cs)" by auto
    then show ?thesis by (rule sublist_Cons_right[THEN iffD2, OF disjI2])
  qed
qed simp_all

lemma lowerAscii_at: "lowerAscii c = 64 \<longleftrightarrow> c = 64"
  by (auto simp: lowerAscii_def)

lemma handle_prefix_at:
  assumes "map lowerAscii (take 13 s) = ascii ''youtube.com/@''"
  shows "take 13 s = butlast (take 13 s) @ [64]"
proof -
  have ne: "take 13 s \<noteq> []" using assms by (auto simp: ascii_def)
  have "last (map lowerAscii (take 13 s)) = 64" unfolding assms by (simp add: ascii_def)
  then have "lowerAscii (last (take 13 s)) = 64" using ne by (simp add: last_map)
  then have "last (take 13 s) = 64" by (simp add: lowerAscii_at)
  then show ?thesis using ne append_butlast_last_id by metis
qed

lemma handle_sublist:
  assumes "map lowerAscii (take 13 s) = ascii ''youtube.com/@''"
  shows "sublist (64 # takeWhile Q (drop 13 s)) s"
proof -
  have "s = take 13 s @ takeWhile Q (drop 13 s) @ dropWhile Q (drop 13 s)" by simp
  also have "\<dots> = butlast (take 13 s) @ (64 # takeWhile Q (drop 13 s)) @ dropWhile Q (drop 13 s)"
    by (subst handle_prefix_at[OF assms]) simp
  finally show ?thesis unfolding sublist_def by blast
qed

lemma matchHandleUrl_sublist: "matchHandleUrl s = Some h \<Longrightarrow> sublist (64 # h) s"
proof (induction s rule: matchHandleUrl.induct)
  case 1
  then show ?case by simp
next
  case (2 c cs)
  let ?h = "takeWhile (\<lambda>x. x \<noteq> 47 \<and> x \<noteq> 63) (drop 13 (c # cs))"
  let ?g = "map lowerAscii (take 13 (c # cs)) = ascii ''youtube.com/@'' \<and> ?h \<noteq> []"
  from 2(2) have eq: "(if ?g then Some ?h else matchHandleUrl cs) = Some h"
    by (simp only: matchHandleUrl.simps Let_def)
  show ?case
  proof (cases ?g)
    case True
    from eq have "Some ?h = Some h" unfolding if_P[OF True] .
    then have h: "h = ?h" by simp
    show ?thesis unfolding h using True by (intro handle_sublist) blast
  next
    case False
    from eq have "matchHandleUrl cs = Some h" unfolding if_not_P[OF False] .
    with 2(1) False have "sublist (64 # h) cs" by blast
    then show ?thesis by (rule sublist_Cons_right[THEN iffD2, OF disjI2])
  qed
qed

lemma parse_names_input: "sublist (value_of (parseChannelInput input)) input"
proof -
  have "sublist (value_of (parseChannelInput input)) (trim input)"
    by (auto simp: parseChannelInput_def Let_def split: option.splits
        dest: matchChannelId_sublist matchHandleUrl_sublist)
  then show ?thesis using sublist_trim sublist_order.order_trans by blast
qed

lemma handleInput_not_found:
  assumes "fst (cacheGet (parseChannelInput input, d, m) (getAt T) c) = None"
    and "channelsGET P (parseChannelInput input) = Inr []"
  shows "handleInput R P T cutoff d m input c =
         Some (Inl (notFound @ value_of (parseChannelInput input)),
               snd (cacheGet (parseChannelInput input, d, m) (getAt T) c), 1)"
  using assms(2) by (simp add: handleInput_miss[OF assms(1)] fetchBundle_def resolveChannel_def)

lemma notFound_not_empty: "notFound \<noteq> []"
  by (simp add: notFound_def)

text \<open>
  Claim C8. When the inputs before an input were all handled, the input is not served from
  the cache and the provider answers its channel request with no item, the whole request
  returns the error response with status 400 whose message is "Khong tim thay channel: "
  (written with its accents) followed by the value of the reference parsed from the input,
  which is a part of the input string. An error response carries a message only: no
  channel and no record of the inputs handled before.
\<close>

theorem resolution_failure_aborts:
  assumes "truthy apiKey"
    and "BodySchema req = Some (pre @ input # post, d, m)"
    and "forInputs R P turns (cutoffOf R now d) d m pre [] [] c 0 = Some (Inr (chs, rs), c1, n1)"
    and "fst (cacheGet (parseChannelInput input, d, m) (getAt (turns (length pre))) c1) = None"
    and "channelsGET P (parseChannelInput input) = Inr []"
  shows "POST R P apiKey now turns c req =
           Some (Failure 400 (Text (notFound @ value_of (parseChannelInput input))),
                 snd (cacheGet (parseChannelInput input, d, m) (getAt (turns (length pre))) c1),
                 n1 + 1) \<and>
         sublist (value_of (parseChannelInput input)) input"
proof -
  have "forInputs R P turns (cutoffOf R now d) d m (pre @ input # post) [] [] c 0 =
        Some (Inl (notFound @ value_of (parseChannelInput input)),
              snd (cacheGet (parseChannelInput input, d, m) (getAt (turns (length pre))) c1), n1 + 1)"
    by (simp add: forInputs_append assms(3) handleInput_not_found[OF assms(4,5)])
  then show ?thesis
    using assms(1,2) by (simp add: POST_def notFound_not_empty parse_names_input)
qed

lemma nobody_parse:
  "parseChannelInput (ascii ''@nobody'') = \<lparr>kind_of = ForHandle, value_of = ascii ''@nobody''\<rparr>"
  by (simp add: parseChannelInput_def trim_def isSpace_def ascii_def lowerAscii_def)

lemma nobody_schema: "BodySchema nobodyBody = Some ([ascii ''@demo''] @ ascii ''@nobody'' # [], 7, 80)"
  by (simp add: BodySchema_def nobodyBody_def jsLength_def ascii_def)

lemma nobody_absent:
  "fst (cacheGet (parseChannelInput (ascii ''@nobody''), 7, 80)
     (getAt (demoTurns demoNow (length [ascii ''@demo'']))) demoCache) = None"
  unfolding nobody_parse by (simp add: cacheGet_def demoCache_def demoRef_def ascii_def)

lemma nobody_cache:
  "snd (cacheGet (parseChannelInput (ascii ''@nobody''), 7, 80)
     (getAt (demoTurns demoNow (length [ascii ''@demo'']))) demoCache) = demoCache"
  unfolding nobody_parse by (simp add: cacheGet_def demoCache_def demoRef_def ascii_def)

lemma nobody_unknown: "channelsGET demoProvider (parseChannelInput (ascii ''@nobody'')) = Inr []"
  unfolding nobody_parse by (simp add: demoProvider_def ascii_def)

lemma demo_loop7:
  "forInputs demoRuntime demoProvider (demoTurns demoNow) (cutoffOf demoRuntime demoNow 7) 7 80
     [ascii ''@demo''] [] [] [] 0 =
     Some (Inr ([demoCh], [demoRow]), demoCache, 3)"
  unfolding demo_cutoff by (rule demo_loop)

text \<open>
  Witness for C8: with the inputs \<^verbatim>\<open>@demo\<close> and \<^verbatim>\<open>@nobody\<close>, the first channel is fetched with
  three requests, the second is not found, and the response is the error that names
  \<^verbatim>\<open>@nobody\<close>.
\<close>

theorem resolution_failure_aborts_witness:
  "POST demoRuntime demoProvider (Some (ascii ''key'')) demoNow (demoTurns demoNow) [] nobodyBody =
     Some (Failure 400 (Text (notFound @ ascii ''@nobody'')), demoCache, 4) \<and>
   sublist (ascii ''@nobody'') (ascii ''@nobody'')"
  using resolution_failure_aborts [OF demo_key nobody_schema demo_loop7 nobody_absent nobody_unknown]
  unfolding nobody_cache by (simp add: nobody_parse)

section \<open>Items without a date\<close>

lemma inWindow_undated: "v_publishedAt v = None \<Longrightarrow> inWindow R cutoff v = None"
  by (simp add: inWindow_def)

lemma buildRows_undated:
  "buildRows R clock cutoff ch (filter dated videos) =
   buildRows R clock cutoff ch videos"
  by (induction videos)
    (auto simp: buildRows_def List.map_filter_simps inWindow_undated dated_def split: option.splits)

lemma makeBundle_undated:
  "makeBundle R clock cutoff ch (filter dated videos) =
   makeBundle R clock cutoff ch videos"
  by (simp add: makeBundle_def buildRows_undated Let_def)

lemma fetchChunks_undated:
  "fetchChunks (withoutUndated P) cs (filter dated out) n =
   map_prod (map_sum id (filter dated)) id (fetchChunks P cs out n)"
proof (induction cs arbitrary: out n)
  case Nil
  then show ?case by simp
next
  case (Cons chunk cs)
  show ?case
  proof (cases "videosGET P chunk")
    case (Inl e)
    then show ?thesis by (simp add: withoutUndated_def)
  next
    case (Inr res)
    then have "videosGET (withoutUndated P) chunk = Inr (filter dated res)"
      by (simp add: withoutUndated_def)
    then show ?thesis using Inr Cons.IH[of "out @ res" "n + 1"] by simp
  qed
qed

lemma getVideosDetails_undated:
  "getVideosDetails (withoutUndated P) ids =
   map_prod (map_sum id (filter dated)) id (getVideosDetails P ids)"
  using fetchChunks_undated[of P "chunks ids" "[]" 0] by (simp add: getVideosDetails_def)

lemma fetchBundle_undated:
  "fetchBundle R (withoutUndated P) clock cutoff p m = fetchBundle R P clock cutoff p m"
proof -
  have 1: "resolveChannel (withoutUndated P) p = resolveChannel P p"
    by (simp add: resolveChannel_def withoutUndated_def)
  have 2: "listPlaylistVideos (withoutUndated P) pl k = listPlaylistVideos P pl k" for pl k
    by (simp add: listPlaylistVideos_def withoutUndated_def)
  show ?thesis
    unfolding fetchBundle_def 1 2 getVideosDetails_undated
    by (auto split: sum.splits option.splits prod.splits simp: makeBundle_undated)
qed

lemma handleInput_undated:
  "handleInput R (withoutUndated P) T cutoff d m input c = handleInput R P T cutoff d m input c"
  unfolding handleInput_def fetchBundle_undated ..

lemma forInputs_undated:
  "forInputs R (withoutUndated P) turns cutoff d m ins chs rs c n =
   forInputs R P turns cutoff d m ins chs rs c n"
  by (induction ins arbitrary: turns chs rs c n)
    (simp_all add: handleInput_undated split: option.splits sum.splits prod.splits)

text \<open>
  Claim C9. The video items that have no \<^verbatim>\<open>publishedAt\<close> change nothing: the handler returns
  the same response, leaves the same cache and sends the same number of requests as it does
  when the provider's answers do not hold those items. So such an item is in no row, no
  aggregate and no top list, and it raises no error.
\<close>

theorem undated_items_excluded:
  "POST R (withoutUndated P) apiKey now turns c req = POST R P apiKey now turns c req"
  unfolding POST_def forInputs_undated ..

lemma demo_undated: "\<not> dated demoVideo3" "dated demoVideo1"
  by (simp_all add: dated_def demoVideo3_def demoVideo1_def)

text \<open>
  Witness for C9: the third video of the examples has no date; with or without it the
  response holds the one record of the first video.
\<close>

theorem undated_items_excluded_witness:
  "\<not> dated demoVideo3 \<and> videosGET demoProvider [] = Inr [demoVideo1, demoVideo2, demoVideo3] \<and>
   POST demoRuntime (withoutUndated demoProvider) (Some (ascii ''key'')) demoNow (demoTurns demoNow)
     [] demoBody =
     Some (Success (respond demoRuntime 7 80 [demoCh] [demoRow]), demoCache, 3)"
  using undated_items_excluded [of demoRuntime demoProvider "Some (ascii ''key'')" demoNow
      "demoTurns demoNow" "[]" demoBody]
  by (simp add: demo_post demo_undated) (simp add: demoProvider_def demoVideos_def)

section \<open>The window\<close>



















subsection \<open>What the summaries count\<close>








subsection \<open>The single-channel handler\<close>



subsection \<open>The records of a response\<close>


text \<open>
  The single-channel handler keeps an item without \<^verbatim>\<open>publishedAt\<close> whenever the cutoff lies
  before the instant of the filter, with the age of one day; the multi-channel handler
  drops such an item.
\<close>

lemma routeRows_undated:
  assumes "v \<in> set videos" and "v_publishedAt v = None" and "cutoff < filterClock v"
  shows "routeRow R v 1 \<in> set (routeRows R clock filterClock cutoff videos)"
proof -
  have "routeKeep R (clock v) (filterClock v) cutoff v = Some 1"
    using assms(2,3) by (simp add: routeKeep_def)
  with assms(1) show ?thesis
    unfolding routeRows_def by (force simp: List.map_filter_def)
qed

















section \<open>A request with the same reference twice\<close>














subsection \<open>Grouping and its doubling\<close>





































end
